theory Spec2Isabelle
  imports Main "HOL-Library.Multiset"
begin

section \<open>Identifiers, users, errors\<close>

text \<open>
  A MongoDB ObjectId is kept by the text \<open>toString()\<close> gives for it: twenty-four
  hexadecimal digits in lower case. Request parameters and the authenticated user's
  \<open>_id\<close> are plain strings; stored references (\<open>_id\<close>, \<open>userId\<close>, \<open>articleId\<close>,
  \<open>answerOf\<close>) are ObjectIds.
\<close>

datatype objectId = Oid string

text \<open>A point in time: milliseconds since the epoch, as a JavaScript \<open>Date\<close> holds it.\<close>

type_synonym time = int

fun toString :: "objectId \<Rightarrow> string" where
  "toString (Oid s) = s"

definition isHex :: "char \<Rightarrow> bool" where
  "isHex c = (c \<in> set ''0123456789abcdefABCDEF'')"

text \<open>
  \<open>app.mongo.Types.ObjectId.isValid\<close> on a string (the driver's rule, the driver is not
  part of the repository): twelve characters, or twenty-four hexadecimal digits.
\<close>

definition isValid :: "string \<Rightarrow> bool" where
  "isValid s = (length s = 12 \<or> (length s = 24 \<and> list_all isHex s))"

text \<open>
  \<open>app.mongo.Types.ObjectId(s)\<close>, which is also the cast mongoose applies to a string
  in a query or an update (the driver's rule): twenty-four hexadecimal digits are read
  without regard to case, twelve characters are taken as the twelve bytes. On any other
  string the driver throws; the handlers call it on such a string only where the model
  answers with \<open>CastError\<close> before, or on \<open>user._id\<close>, which the login issues.
\<close>

definition lowerHex :: "char \<Rightarrow> char" where
  "lowerHex c =
     (if c = CHR ''A'' then CHR ''a'' else if c = CHR ''B'' then CHR ''b''
      else if c = CHR ''C'' then CHR ''c'' else if c = CHR ''D'' then CHR ''d''
      else if c = CHR ''E'' then CHR ''e'' else if c = CHR ''F'' then CHR ''f''
      else c)"

definition hexDigit :: "nat \<Rightarrow> char" where
  "hexDigit n = ''0123456789abcdef'' ! (n mod 16)"

definition hexByte :: "char \<Rightarrow> string" where
  "hexByte c = [hexDigit (of_char c div 16), hexDigit (of_char c mod 16)]"

definition canonical :: "string \<Rightarrow> string" where
  "canonical s =
     (if length s = 24 \<and> list_all isHex s then map lowerHex s
      else if length s = 12 then concat (map hexByte s)
      else s)"

definition ObjectId :: "string \<Rightarrow> objectId" where
  "ObjectId s = Oid (canonical s)"

text \<open>The user the request carries (\<open>req.user.user\<close>).\<close>

record user =
  uid :: string
  tagAdmin :: bool
  tagAuthor :: bool
  u_name :: string
  u_email :: string

text \<open>
  One constructor for each object the handlers throw. \<open>TypeError\<close> is the JavaScript
  runtime's error on reading a property of \<open>null\<close> or \<open>undefined\<close>, \<open>CastError\<close> is
  mongoose's on a malformed \<open>_id\<close> in a query, \<open>AggregateError\<close> the store's on a
  negative \<open>$skip\<close> or a non-positive \<open>$limit\<close>.
\<close>

datatype error =
    TitleRequired
  | TitleTooLong
  | CustomUriRequired
  | ForbiddenOtherAuthor
  | ThemeNotFound
  | ThemeRequiredForCategory
  | CategoryNotFound
  | CategoryThemeDisabled
  | ThemeCategoryMismatch
  | ArticleNotFound
  | Forbidden
  | AlreadyRemoved
  | InvalidState
  | UseDeleteMethod
  | SameState
  | BoostLimitReached
  | ArticlesIdNotArray
  | ArticlesIdEmpty
  | ArticlesIdInvalid nat
  | MultiBoostLimit
  | TypeError
  | CastError
  | AggregateError
  | InvalidCommentType
  | InternalError
  | InvalidIdentifier
  | AnswerTooLong
  | CommentNotFound
  | UserNotFound
  | Unauthorized
  | NoSettings
  | InvalidAnswersType
  | InvalidType
  | InvalidAnswersOrder
  | InvalidOrder

section \<open>Articles (src/api/articles/articles.js)\<close>

subsection \<open>Documents and collections\<close>

text \<open>
  The article document. \<open>userId\<close> is what the articles module writes and reads;
  \<open>author\<close> is the field the comments module joins on (\<open>article.author\<close>). Timestamps are
  \<open>None\<close> while unset.
\<close>

record article =
  a_id :: objectId
  title :: string
  userId :: objectId
  author :: "objectId option"
  state :: string
  customUri :: string
  themeId :: "objectId option"
  categoryId :: "objectId option"
  publishedAt :: "time option"
  boostedAt :: "time option"
  inactivatedAt :: "time option"
  removedAt :: "time option"

record theme =
  t_id :: objectId
  t_state :: string

record category =
  c_id :: objectId
  c_themeId :: objectId
  c_state :: string

text \<open>A user document, as far as the handlers read it.\<close>

record userDoc =
  ud_id :: objectId
  deletedAt :: "time option"

text \<open>A comment document. \<open>answerOf\<close> is \<open>None\<close> on a root comment.\<close>

record comment =
  cm_id :: objectId
  articleId :: objectId
  answerOf :: "objectId option"
  userName :: string
  userEmail :: string
  message :: string
  readedAt :: "time option"
  createdAt :: time

text \<open>
  A row of the relational table \<open>comment_settings\<close>. The \<open>notify\<close> column holds a number;
  a boolean is written as 1 or 0.
\<close>

record settingsRow =
  r_userId :: string
  r_type :: string
  r_order :: string
  r_limit :: int
  r_notify :: int
  r_answers_type :: string
  r_answers_order :: string

text \<open>A row of the relational table \<open>comments\<close> (the statistics); \<open>reference\<close> may be null.\<close>

record statRow =
  st_month :: int
  st_count :: nat
  st_year :: int
  st_reference :: "string option"

text \<open>The document store's collections and the relational store's two tables.\<close>

record db =
  articles :: "article list"
  themes :: "theme list"
  categories :: "category list"
  users :: "userDoc list"
  comments :: "comment list"
  comment_settings :: "settingsRow list"
  stats :: "statRow list"

text \<open>
  The request body of \<open>save\<close>. \<open>None\<close> is an absent property. \<open>p_removedAt\<close> is
  \<open>Some None\<close> for an explicit \<open>null\<close>.
\<close>

record patch =
  p_title :: "string option"
  p_customUri :: "string option"
  p_themeId :: "string option"
  p_categoryId :: "string option"
  p_userId :: "string option"
  p_state :: "string option"
  p_logoImg :: "string option"
  p_secondaryImg :: "string option"
  p_headerImg :: "string option"
  p_removedAt :: "time option option"

subsection \<open>Store operations\<close>

text \<open>\<open>updateOne\<close> changes the first document the filter matches, \<open>updateMany\<close> all.\<close>

fun updateOne :: "('a \<Rightarrow> bool) \<Rightarrow> ('a \<Rightarrow> 'a) \<Rightarrow> 'a list \<Rightarrow> 'a list" where
  "updateOne P f [] = []"
| "updateOne P f (x # xs) = (if P x then f x # xs else x # updateOne P f xs)"

definition updateMany :: "('a \<Rightarrow> bool) \<Rightarrow> ('a \<Rightarrow> 'a) \<Rightarrow> 'a list \<Rightarrow> 'a list" where
  "updateMany P f xs = map (\<lambda>x. if P x then f x else x) xs"

text \<open>\<open>Article.findOne({ _id: id })\<close>: mongoose casts the string and rejects a malformed one.\<close>

definition findOneArticle :: "db \<Rightarrow> string \<Rightarrow> error + article option" where
  "findOneArticle d ident =
     (if isValid ident then Inr (find (\<lambda>a. a_id a = ObjectId ident) (articles d))
      else Inl CastError)"

text \<open>\<open>Article.countDocuments({ userId: user._id, state: 'boosted' })\<close>.\<close>

definition countBoosted :: "db \<Rightarrow> string \<Rightarrow> nat" where
  "countBoosted d u =
     length (filter (\<lambda>a. userId a = ObjectId u \<and> state a = ''boosted'') (articles d))"

subsection \<open>create\<close>

text \<open>
  Modelled from the spec: \<open>exists\<close> of \<open>app.config.validation\<close> (not among the sources)
  rejects a missing or empty value with the error it is given.
\<close>

definition exists_value :: "string option \<Rightarrow> error \<Rightarrow> error + string" where
  "exists_value v e = (case v of None \<Rightarrow> Inl e | Some s \<Rightarrow> if s = [] then Inl e else Inr s)"

text \<open>
  Modelled from the spec: the Article schema (not among the sources) starts a new document
  in state \<open>draft\<close> with no theme, no category and no state timestamp; its \<open>_id\<close> and its
  default \<open>customUri\<close> are generated values, taken as parameters.
\<close>

definition newArticle :: "objectId \<Rightarrow> string \<Rightarrow> string \<Rightarrow> string \<Rightarrow> article" where
  "newArticle fresh uri t u =
     \<lparr> a_id = fresh, title = t, userId = ObjectId u, author = None, state = ''draft'',
       customUri = uri, themeId = None, categoryId = None, publishedAt = None,
       boostedAt = None, inactivatedAt = None, removedAt = None \<rparr>"

definition create :: "db \<Rightarrow> user \<Rightarrow> string option \<Rightarrow> objectId \<Rightarrow> string \<Rightarrow> error + (db \<times> article)" where
  "create d u t fresh uri =
     (case exists_value t TitleRequired of
        Inl e \<Rightarrow> Inl e
      | Inr s \<Rightarrow>
          if length s > 100 then Inl TitleTooLong
          else Inr (d\<lparr>articles := articles d @ [newArticle fresh uri s (uid u)]\<rparr>,
                    newArticle fresh uri s (uid u)))"

subsection \<open>save (validateFields, then updateOne)\<close>

definition truthy :: "string option \<Rightarrow> bool" where
  "truthy v = (case v of None \<Rightarrow> False | Some s \<Rightarrow> s \<noteq> [])"

definition checkTheme :: "db \<Rightarrow> patch \<Rightarrow> error option" where
  "checkTheme d p =
     (case p_themeId p of
        None \<Rightarrow> None
      | Some t \<Rightarrow>
          if t = [] then None
          else if isValid t then
            (case find (\<lambda>th. t_id th = ObjectId t \<and> t_state th = ''active'') (themes d) of
               None \<Rightarrow> Some ThemeNotFound
             | Some th \<Rightarrow> None)
          else Some CastError)"

definition checkCategory :: "db \<Rightarrow> article \<Rightarrow> patch \<Rightarrow> error option" where
  "checkCategory d cur p =
     (case p_categoryId p of
        None \<Rightarrow> None
      | Some c \<Rightarrow>
          if c = [] then None
          else if themeId cur = None \<and> \<not> truthy (p_themeId p) then Some ThemeRequiredForCategory
          else if isValid c then
            (case find (\<lambda>x. c_id x = ObjectId c \<and> c_state x = ''active'') (categories d) of
               None \<Rightarrow> Some CategoryNotFound
             | Some cat \<Rightarrow>
                 (case find (\<lambda>th. t_id th = c_themeId cat \<and> t_state th = ''active'') (themes d) of
                    None \<Rightarrow> Some CategoryThemeDisabled
                  | Some th \<Rightarrow>
                      if truthy (p_themeId p) \<and> Some (toString (t_id th)) \<noteq> p_themeId p
                      then Some ThemeCategoryMismatch else None))
          else Some CastError)"

text \<open>The tail of \<open>validateFields\<close>: spaces leave \<open>customUri\<close>, five properties are deleted.\<close>

definition formatPatch :: "patch \<Rightarrow> patch" where
  "formatPatch p =
     p\<lparr> p_customUri := map_option (filter (\<lambda>c. c \<noteq> CHR '' '')) (p_customUri p),
        p_userId := None, p_state := None,
        p_logoImg := None, p_secondaryImg := None, p_headerImg := None \<rparr>"

text \<open>
  \<open>validateFields\<close> reads \<open>currentArticle.userId\<close> with no test that the article was
  found: on \<open>null\<close> the read throws a TypeError.
\<close>

definition validateFields :: "db \<Rightarrow> patch \<Rightarrow> string \<Rightarrow> user \<Rightarrow> error + patch" where
  "validateFields d p ident u =
     (if p_title p = Some [] then Inl TitleRequired
      else if p_customUri p = Some [] then Inl CustomUriRequired
      else
        (case findOneArticle d ident of
           Inl e \<Rightarrow> Inl e
         | Inr None \<Rightarrow> Inl TypeError
         | Inr (Some cur) \<Rightarrow>
             if uid u \<noteq> toString (userId cur) then Inl ForbiddenOtherAuthor
             else
               (case checkTheme d p of
                  Some e \<Rightarrow> Inl e
                | None \<Rightarrow>
                    (case checkCategory d cur p of
                       Some e \<Rightarrow> Inl e
                     | None \<Rightarrow> Inr (formatPatch p)))))"

text \<open>
  \<open>Article.updateOne({ _id: id }, article)\<close>. Mongoose casts the body first: an empty
  string for a reference is a CastError and nothing is written. Otherwise the properties
  the body holds are set.
\<close>

definition castFails :: "patch \<Rightarrow> bool" where
  "castFails p = (p_themeId p = Some [] \<or> p_categoryId p = Some [])"

definition applyPatch :: "patch \<Rightarrow> article \<Rightarrow> article" where
  "applyPatch p a =
     a\<lparr> title := (case p_title p of None \<Rightarrow> title a | Some t \<Rightarrow> t),
        customUri := (case p_customUri p of None \<Rightarrow> customUri a | Some c \<Rightarrow> c),
        themeId := (case p_themeId p of None \<Rightarrow> themeId a | Some t \<Rightarrow> Some (ObjectId t)),
        categoryId :=
          (case p_categoryId p of None \<Rightarrow> categoryId a | Some c \<Rightarrow> Some (ObjectId c)),
        userId := (case p_userId p of None \<Rightarrow> userId a | Some v \<Rightarrow> ObjectId v),
        state := (case p_state p of None \<Rightarrow> state a | Some s \<Rightarrow> s),
        removedAt := (case p_removedAt p of None \<Rightarrow> removedAt a | Some v \<Rightarrow> v) \<rparr>"

definition save :: "db \<Rightarrow> string \<Rightarrow> user \<Rightarrow> patch \<Rightarrow> error + db" where
  "save d ident u p =
     (case validateFields d p ident u of
        Inl e \<Rightarrow> Inl e
      | Inr q \<Rightarrow>
          if castFails q then Inl CastError
          else
            Inr (d\<lparr>articles :=
                   updateOne (\<lambda>a. a_id a = ObjectId ident) (applyPatch q) (articles d)\<rparr>))"

subsection \<open>remove\<close>

text \<open>
  \<open>remove\<close> compares \<open>user._id\<close>, a string, with \<open>article.userId\<close>, an ObjectId, by
  \<open>!==\<close> and without \<open>toString()\<close>: a string is never strictly equal to an object.
\<close>

definition strictNotEqual :: "string \<Rightarrow> objectId \<Rightarrow> bool" where
  "strictNotEqual s oid = True"

text \<open>
  \<open>now\<close> is the value of \<open>MyDate.setTimeZone('-3')\<close> at the call, \<open>uri\<close> that of
  \<open>articleData.defaultUri()\<close>.
\<close>

definition remove :: "db \<Rightarrow> string \<Rightarrow> user \<Rightarrow> time \<Rightarrow> string \<Rightarrow> error + db" where
  "remove d ident u now uri =
     (case findOneArticle d ident of
        Inl e \<Rightarrow> Inl e
      | Inr None \<Rightarrow> Inl ArticleNotFound
      | Inr (Some a) \<Rightarrow>
          if \<not> tagAdmin u \<and> strictNotEqual (uid u) (userId a) then Inl Forbidden
          else if state a = ''removed'' then Inl AlreadyRemoved
          else
            Inr (d\<lparr>articles :=
                   updateOne (\<lambda>x. a_id x = ObjectId ident)
                     (\<lambda>x. x\<lparr>state := ''removed'', removedAt := Some now, customUri := uri\<rparr>)
                     (articles d)\<rparr>))"

subsection \<open>changeState\<close>

definition checkValidStates :: "string \<Rightarrow> bool \<Rightarrow> error option" where
  "checkValidStates s includingRemove =
     (if s \<in> set ([''boosted'', ''inactivated'', ''published'']
                    @ (if includingRemove then [''removed''] else []))
      then None else Some InvalidState)"

text \<open>\<open>article[stateTimestamp]\<close> and its update: a property read and written by name.\<close>

definition getTimestamp :: "string \<Rightarrow> article \<Rightarrow> time option" where
  "getTimestamp k a =
     (if k = ''publishedAt'' then publishedAt a
      else if k = ''boostedAt'' then boostedAt a
      else if k = ''inactivatedAt'' then inactivatedAt a
      else if k = ''removedAt'' then removedAt a
      else None)"

definition setTimestamp :: "string \<Rightarrow> time option \<Rightarrow> article \<Rightarrow> article" where
  "setTimestamp k v a =
     (if k = ''publishedAt'' then a\<lparr>publishedAt := v\<rparr>
      else if k = ''boostedAt'' then a\<lparr>boostedAt := v\<rparr>
      else if k = ''inactivatedAt'' then a\<lparr>inactivatedAt := v\<rparr>
      else if k = ''removedAt'' then a\<lparr>removedAt := v\<rparr>
      else a)"

definition validateState :: "db \<Rightarrow> string \<Rightarrow> user \<Rightarrow> string \<Rightarrow> error + (article \<times> string)" where
  "validateState d ident u s =
     (if s = ''removed'' then Inl UseDeleteMethod
      else
        (case checkValidStates s False of
           Some e \<Rightarrow> Inl e
         | None \<Rightarrow>
             (case findOneArticle d ident of
                Inl e \<Rightarrow> Inl e
              | Inr None \<Rightarrow> Inl ArticleNotFound
              | Inr (Some a) \<Rightarrow>
                  if \<not> tagAdmin u \<and> uid u \<noteq> toString (userId a) then Inl Forbidden
                  else if state a = s then Inl SameState
                  else if tagAuthor u \<and> countBoosted d (uid u) > 1 then Inl BoostLimitReached
                  else Inr (a, s @ ''At''))))"

definition changeState :: "db \<Rightarrow> string \<Rightarrow> user \<Rightarrow> string \<Rightarrow> time \<Rightarrow> error + db" where
  "changeState d ident u s now =
     (case validateState d ident u s of
        Inl e \<Rightarrow> Inl e
      | Inr (a, stateTimestamp) \<Rightarrow>
          Inr (d\<lparr>articles :=
                 updateOne (\<lambda>x. a_id x = ObjectId ident)
                   (\<lambda>x. setTimestamp stateTimestamp
                          (case getTimestamp stateTimestamp a of
                             None \<Rightarrow> Some now
                           | Some t \<Rightarrow> Some t)
                          (x\<lparr>state := s\<rparr>))
                   (articles d)\<rparr>))"

subsection \<open>changeStates\<close>

fun firstInvalid :: "string list \<Rightarrow> nat \<Rightarrow> nat option" where
  "firstInvalid [] i = None"
| "firstInvalid (x # xs) i = (if isValid x then firstInvalid xs (Suc i) else Some i)"

text \<open>The \<open>switch\<close> on the wanted state: which of the found articles may change.\<close>

definition articlesToChange :: "string \<Rightarrow> article list \<Rightarrow> article list" where
  "articlesToChange s found =
     (if s = ''published'' then
        filter (\<lambda>a. state a = ''inactivated'' \<or> state a = ''draft'') found
      else if s = ''boosted'' then
        filter (\<lambda>a. state a = ''published'') found
      else if s = ''inactivated'' then
        filter (\<lambda>a. state a = ''published'' \<or> state a = ''boosted'') found
      else if s = ''removed'' then
        filter (\<lambda>a. state a = ''draft'') found
      else [])"

text \<open>
  \<open>articlesId\<close> is \<open>None\<close> when the body has none or it is not an array. The result is the
  list of \<open>_id\<close>s to change.
\<close>

definition checkArticlesForMultipleChanges ::
  "db \<Rightarrow> user \<Rightarrow> string list option \<Rightarrow> string \<Rightarrow> error + objectId list" where
  "checkArticlesForMultipleChanges d u articlesId s =
     (case checkValidStates s True of
        Some e \<Rightarrow> Inl e
      | None \<Rightarrow>
          (case articlesId of
             None \<Rightarrow> Inl ArticlesIdNotArray
           | Some ids \<Rightarrow>
               if ids = [] then Inl ArticlesIdEmpty
               else
                 (case firstInvalid ids 0 of
                    Some i \<Rightarrow> Inl (ArticlesIdInvalid i)
                  | None \<Rightarrow>
                      if \<not> tagAdmin u \<and> s = ''boosted''
                         \<and> (countBoosted d (uid u) \<ge> 1 \<or> length ids > 1)
                      then Inl MultiBoostLimit
                      else
                        Inr (map a_id
                          (articlesToChange s
                            (filter (\<lambda>a. a_id a \<in> set (map ObjectId ids)) (articles d)))))))"

definition changeStates :: "db \<Rightarrow> user \<Rightarrow> string list option \<Rightarrow> string \<Rightarrow> error + db" where
  "changeStates d u articlesId s =
     (case checkArticlesForMultipleChanges d u articlesId s of
        Inl e \<Rightarrow> Inl e
      | Inr toChange \<Rightarrow>
          Inr (d\<lparr>articles :=
                 updateMany (\<lambda>a. a_id a \<in> set toChange \<and> userId a = ObjectId (uid u))
                   (\<lambda>a. a\<lparr>state := s\<rparr>) (articles d)\<rparr>))"

section \<open>Comment settings (src/api/articles/comments/settings.js)\<close>

text \<open>
  The request body of \<open>save\<close>. \<open>None\<close> is an absent property; for \<open>notify\<close> it also
  stands for an explicit \<open>null\<close>, which the handler treats alike.
\<close>

record settingsPatch =
  s_notify :: "bool option"
  s_limit :: "int option"
  s_order :: "string option"
  s_type :: "string option"
  s_answersOrder :: "string option"
  s_answersType :: "string option"

text \<open>What the handlers answer with; \<open>ttl\<close> is present in the answer of \<open>save\<close> only.\<close>

record settingsView =
  v_userId :: string
  v_type :: string
  v_order :: string
  v_limit :: int
  v_notify :: bool
  v_answersType :: string
  v_answersOrder :: string
  v_ttl :: "time option"

datatype settingsAnswer = NotModified | Settings settingsView

text \<open>
  \<open>User.findOne({ _id: user._id, deletedAt: null })\<close>, then the comparison of the found
  document's \<open>id\<close> with \<open>user._id\<close>.
\<close>

definition verifyUser :: "db \<Rightarrow> user \<Rightarrow> error option" where
  "verifyUser d u =
     (if isValid (uid u) then
        (case find (\<lambda>x. ud_id x = ObjectId (uid u) \<and> deletedAt x = None) (users d) of
           None \<Rightarrow> Some UserNotFound
         | Some userInDb \<Rightarrow>
             if toString (ud_id userInDb) \<noteq> uid u then Some Unauthorized else None)
      else Some CastError)"

definition typeValues :: "string list" where
  "typeValues = [''all'', ''not-readed'', ''only-readed'', ''disabled'', ''enabled'']"

definition orderValues :: "string list" where
  "orderValues = [''desc'', ''asc'']"

text \<open>One test of \<open>verifyEnumFields\<close>: the property is truthy and none of the values.\<close>

definition notOneOf :: "string option \<Rightarrow> string list \<Rightarrow> bool" where
  "notOneOf v allowed = (case v of None \<Rightarrow> False | Some s \<Rightarrow> s \<noteq> [] \<and> s \<notin> set allowed)"

definition verifyEnumFields :: "settingsPatch \<Rightarrow> error option" where
  "verifyEnumFields p =
     (if notOneOf (s_answersType p) typeValues then Some InvalidAnswersType
      else if notOneOf (s_type p) typeValues then Some InvalidType
      else if notOneOf (s_answersOrder p) orderValues then Some InvalidAnswersOrder
      else if notOneOf (s_order p) orderValues then Some InvalidOrder
      else None)"

text \<open>The select both handlers end with, and \<open>Boolean(settings.notify)\<close>.\<close>

definition selectSettings :: "db \<Rightarrow> user \<Rightarrow> settingsRow option" where
  "selectSettings d u = find (\<lambda>r. r_userId r = uid u) (comment_settings d)"

definition viewOf :: "settingsRow \<Rightarrow> time option \<Rightarrow> settingsView" where
  "viewOf r ttl =
     \<lparr> v_userId = r_userId r, v_type = r_type r, v_order = r_order r, v_limit = r_limit r,
       v_notify = (r_notify r \<noteq> 0), v_answersType = r_answers_type r,
       v_answersOrder = r_answers_order r, v_ttl = ttl \<rparr>"

text \<open>
  \<open>get\<close>. \<open>ttl\<close> is the number in the header \<open>cm-ttl-comments\<close>, \<open>None\<close> without the
  header; \<open>now\<close> is \<open>Date.now()\<close>.
\<close>

definition get_settings :: "db \<Rightarrow> user \<Rightarrow> time option \<Rightarrow> time \<Rightarrow> error + settingsAnswer" where
  "get_settings d u ttl now =
     (if (case ttl of None \<Rightarrow> False | Some t \<Rightarrow> t \<ge> now) then Inr NotModified
      else
        (case verifyUser d u of
           Some e \<Rightarrow> Inl e
         | None \<Rightarrow>
             (case selectSettings d u of
                None \<Rightarrow> Inl NoSettings
              | Some r \<Rightarrow> Inr (Settings (viewOf r None)))))"

text \<open>JavaScript's \<open>a || b\<close> on a number and on a string: 0 and the empty string are falsy.\<close>

definition orNumber :: "int option \<Rightarrow> int \<Rightarrow> int" where
  "orNumber a b = (case a of None \<Rightarrow> b | Some n \<Rightarrow> if n = 0 then b else n)"

definition orString :: "string option \<Rightarrow> string \<Rightarrow> string" where
  "orString a b = (case a of None \<Rightarrow> b | Some s \<Rightarrow> if s = [] then b else s)"

definition boolColumn :: "bool \<Rightarrow> int" where
  "boolColumn b = (if b then 1 else 0)"

text \<open>
  The object \<open>updatedSettings\<close>, built from the body and the current row, and the update
  that writes its six columns into a row.
\<close>

definition updatedSettings :: "settingsPatch \<Rightarrow> settingsRow \<Rightarrow> settingsRow" where
  "updatedSettings p currentSettings =
     currentSettings
       \<lparr> r_limit := orNumber (s_limit p) (r_limit currentSettings),
         r_notify := (case s_notify p of
                        Some b \<Rightarrow> boolColumn b
                      | None \<Rightarrow> r_limit currentSettings),
         r_order := orString (s_order p) (r_order currentSettings),
         r_type := orString (s_type p) (r_type currentSettings),
         r_answers_order := orString (s_answersOrder p) (r_answers_order currentSettings),
         r_answers_type := orString (s_answersType p) (r_answers_type currentSettings) \<rparr>"

definition writeColumns :: "settingsRow \<Rightarrow> settingsRow \<Rightarrow> settingsRow" where
  "writeColumns new r =
     r\<lparr> r_limit := r_limit new, r_notify := r_notify new, r_order := r_order new,
        r_type := r_type new, r_answers_order := r_answers_order new,
        r_answers_type := r_answers_type new \<rparr>"

text \<open>
  The row the insert creates. The columns the body leaves out take the table's defaults,
  which the migration (not among the sources) sets: they are the parameter \<open>dflt\<close>.
\<close>

definition insertedSettings :: "settingsRow \<Rightarrow> settingsPatch \<Rightarrow> user \<Rightarrow> settingsRow" where
  "insertedSettings dflt p u =
     \<lparr> r_userId = uid u,
       r_type = (case s_type p of None \<Rightarrow> r_type dflt | Some v \<Rightarrow> v),
       r_order = (case s_order p of None \<Rightarrow> r_order dflt | Some v \<Rightarrow> v),
       r_limit = (case s_limit p of None \<Rightarrow> r_limit dflt | Some v \<Rightarrow> v),
       r_notify = (case s_notify p of None \<Rightarrow> r_notify dflt | Some b \<Rightarrow> boolColumn b),
       r_answers_type = (case s_answersType p of None \<Rightarrow> r_answers_type dflt | Some v \<Rightarrow> v),
       r_answers_order = (case s_answersOrder p of None \<Rightarrow> r_answers_order dflt | Some v \<Rightarrow> v) \<rparr>"

definition thirtyDays :: int where
  "thirtyDays = 1000 * 60 * 60 * 24 * 30"

definition save_settings ::
  "settingsRow \<Rightarrow> db \<Rightarrow> user \<Rightarrow> settingsPatch \<Rightarrow> time \<Rightarrow> error + (db \<times> settingsView)" where
  "save_settings dflt d u p now =
     (case verifyEnumFields p of
        Some e \<Rightarrow> Inl e
      | None \<Rightarrow>
          (case verifyUser d u of
             Some e \<Rightarrow> Inl e
           | None \<Rightarrow>
               (let d' =
                  (case selectSettings d u of
                     None \<Rightarrow>
                       d\<lparr>comment_settings := comment_settings d @ [insertedSettings dflt p u]\<rparr>
                   | Some currentSettings \<Rightarrow>
                       d\<lparr>comment_settings :=
                           updateMany (\<lambda>r. r_userId r = uid u)
                             (writeColumns (updatedSettings p currentSettings))
                             (comment_settings d)\<rparr>)
                in
                  (case selectSettings d' u of
                     None \<Rightarrow> Inl TypeError
                   | Some r \<Rightarrow> Inr (d', viewOf r (Some (now + thirtyDays)))))))"

section \<open>Comments (the comments module, filed under src/README.md)\<close>

subsection \<open>The joins of the aggregation pipelines\<close>

text \<open>
  \<open>$lookup\<close> from \<open>articles\<close> on \<open>articleId\<close> with \<open>$arrayElemAt 0\<close>, then \<open>$lookup\<close> from
  \<open>users\<close> on \<open>article.author\<close>: the joined article and the joined author, absent when
  nothing matches.
\<close>

definition joinedArticle :: "db \<Rightarrow> comment \<Rightarrow> article option" where
  "joinedArticle d c = find (\<lambda>a. a_id a = articleId c) (articles d)"

definition joinedAuthor :: "db \<Rightarrow> comment \<Rightarrow> userDoc option" where
  "joinedAuthor d c =
     (case joinedArticle d c of
        None \<Rightarrow> None
      | Some a \<Rightarrow>
          (case author a of
             None \<Rightarrow> None
           | Some w \<Rightarrow> find (\<lambda>x. ud_id x = w) (users d)))"

text \<open>
  The condition on \<open>article.author._id\<close>: the user's ObjectId when \<open>user._id\<close> is valid,
  \<open>null\<close> otherwise, and \<open>null\<close> matches a missing field.
\<close>

definition authorMatches :: "db \<Rightarrow> user \<Rightarrow> comment \<Rightarrow> bool" where
  "authorMatches d u c =
     (if isValid (uid u) then map_option ud_id (joinedAuthor d c) = Some (ObjectId (uid u))
      else joinedAuthor d c = None)"

text \<open>
  \<open>{ answerOf: null }\<close>. The counting pipelines test the stored field. The listing
  pipelines first replace \<open>answerOf\<close> by the comment it refers to (\<open>$lookup\<close> from
  \<open>comments\<close>), so there the condition holds when no such comment is found.
\<close>

definition answerOfNull :: "comment \<Rightarrow> bool" where
  "answerOfNull c = (answerOf c = None)"

definition joinedAnswerOfNull :: "db \<Rightarrow> comment \<Rightarrow> bool" where
  "joinedAnswerOfNull d c =
     (case answerOf c of
        None \<Rightarrow> True
      | Some w \<Rightarrow> find (\<lambda>x. cm_id x = w) (comments d) = None)"

text \<open>\<open>$sort: { createdAt: -1 }\<close>, then \<open>skip(page * limit - limit)\<close> and \<open>limit(limit)\<close>.\<close>

definition sortNewestFirst :: "comment list \<Rightarrow> comment list" where
  "sortNewestFirst cs = sort_key (\<lambda>c. - createdAt c) cs"

definition paginate :: "int \<Rightarrow> int \<Rightarrow> 'a list \<Rightarrow> error + 'a list" where
  "paginate page limit xs =
     (if page * limit - limit < 0 \<or> limit \<le> 0 then Inl AggregateError
      else Inr (take (nat limit) (drop (nat (page * limit - limit)) xs)))"

subsection \<open>The three listings\<close>

definition getNotReadedComments :: "db \<Rightarrow> user \<Rightarrow> int \<Rightarrow> int \<Rightarrow> error + (comment list \<times> nat)" where
  "getNotReadedComments d u page limit =
     (let count = length (filter (\<lambda>c. authorMatches d u c \<and> answerOfNull c \<and> readedAt c = None)
                            (comments d))
      in case paginate page limit
                (sortNewestFirst
                   (filter (\<lambda>c. authorMatches d u c \<and> joinedAnswerOfNull d c \<and> readedAt c = None)
                      (comments d))) of
           Inl e \<Rightarrow> Inl e
         | Inr cs \<Rightarrow> Inr (cs, count))"

definition getOnlyReadedComments :: "db \<Rightarrow> user \<Rightarrow> int \<Rightarrow> int \<Rightarrow> error + (comment list \<times> nat)" where
  "getOnlyReadedComments d u page limit =
     (let count = length (filter (\<lambda>c. authorMatches d u c \<and> answerOfNull c \<and> readedAt c \<noteq> None)
                            (comments d))
      in case paginate page limit
                (sortNewestFirst
                   (filter (\<lambda>c. authorMatches d u c \<and> joinedAnswerOfNull d c \<and> readedAt c \<noteq> None)
                      (comments d))) of
           Inl e \<Rightarrow> Inl e
         | Inr cs \<Rightarrow> Inr (cs, count))"

definition getAllComments :: "db \<Rightarrow> user \<Rightarrow> int \<Rightarrow> int \<Rightarrow> error + (comment list \<times> nat)" where
  "getAllComments d u page limit =
     (let count = length (filter (\<lambda>c. authorMatches d u c \<and> answerOfNull c) (comments d))
      in case paginate page limit
                (sortNewestFirst
                   (filter (\<lambda>c. authorMatches d u c \<and> joinedAnswerOfNull d c) (comments d))) of
           Inl e \<Rightarrow> Inl e
         | Inr cs \<Rightarrow> Inr (cs, count))"

text \<open>
  \<open>get\<close>: \<open>parseInt(...) || 1\<close> and \<open>parseInt(...) || 10\<close> on the query, the \<open>switch\<close> on
  \<open>type\<close>, and the two tests of the result. The answer is \<open>comments\<close>, \<open>count\<close>, \<open>limit\<close>.
\<close>

definition get_comments ::
  "db \<Rightarrow> user \<Rightarrow> string \<Rightarrow> int option \<Rightarrow> int option \<Rightarrow> error + (comment list \<times> nat \<times> int)" where
  "get_comments d u type page0 limit0 =
     (let page = orNumber page0 1; limit = orNumber limit0 10
      in if type = ''all'' then
           (case getAllComments d u page limit of
              Inl e \<Rightarrow> Inl InternalError | Inr (cs, n) \<Rightarrow> Inr (cs, n, limit))
         else if type = ''not-readed'' then
           (case getNotReadedComments d u page limit of
              Inl e \<Rightarrow> Inl InternalError | Inr (cs, n) \<Rightarrow> Inr (cs, n, limit))
         else if type = ''only-readed'' then
           (case getOnlyReadedComments d u page limit of
              Inl e \<Rightarrow> Inl InternalError | Inr (cs, n) \<Rightarrow> Inr (cs, n, limit))
         else Inl InvalidCommentType)"

subsection \<open>getOne and answerComment\<close>

text \<open>
  \<open>getOne\<close>: the first comment the pipeline yields with its joined article, \<open>None\<close> when it
  yields none (\<open>comments[0]\<close> of an empty array).
\<close>

definition getOne :: "db \<Rightarrow> string \<Rightarrow> error + (comment \<times> article option) option" where
  "getOne d ident =
     (if isValid ident then
        Inr (map_option (\<lambda>c. (c, joinedArticle d c))
               (find (\<lambda>c. cm_id c = ObjectId ident \<and> joinedAnswerOfNull d c) (comments d)))
      else Inl InvalidIdentifier)"

text \<open>
  Modelled from the spec: \<open>validateLength\<close> of \<open>app.config.validation\<close> (not among the
  sources), called with the mode \<open>bigger\<close>, rejects a text longer than the bound.
\<close>

definition validateLength :: "string \<Rightarrow> nat \<Rightarrow> error \<Rightarrow> error option" where
  "validateLength v bound e = (if length v > bound then Some e else None)"

text \<open>The mail \<open>sendEmail('answer-sent', payload)\<close> hands over: the root and the new answer.\<close>

record mail =
  m_comment :: comment
  m_answer :: comment

text \<open>
  The callback given to \<open>comment.save().then\<close>: it may send the mail, and it has no
  \<open>return\<close>, so its value, which becomes \<open>createdAnswer\<close>, is \<open>undefined\<close> (\<open>None\<close>).
\<close>

definition afterSave :: "string \<Rightarrow> comment \<Rightarrow> comment \<Rightarrow> mail list \<times> comment option" where
  "afterSave sendNotification rootComment newAnswer =
     (if sendNotification = ''yes''
      then [\<lparr> m_comment = rootComment, m_answer = newAnswer \<rparr>] else [],
      None)"

text \<open>
  \<open>answerComment\<close>. \<open>notify\<close> is the query parameter (\<open>None\<close> when absent), \<open>fresh\<close> the
  \<open>_id\<close> and \<open>now\<close> the \<open>createdAt\<close> the store gives the new document. The result is the
  store, the mails handed over and the body sent with status 201.
\<close>

definition answerComment ::
  "db \<Rightarrow> string \<Rightarrow> user \<Rightarrow> string \<Rightarrow> string option \<Rightarrow> objectId \<Rightarrow> time
     \<Rightarrow> error + (db \<times> mail list \<times> comment option)" where
  "answerComment d ident u answer notify fresh now =
     (let sendNotification = orString notify ''no''
      in case validateLength answer 10000 AnswerTooLong of
           Some e \<Rightarrow> Inl e
         | None \<Rightarrow>
             (case getOne d ident of
                Inl e \<Rightarrow> Inl CommentNotFound
              | Inr None \<Rightarrow> Inl TypeError
              | Inr (Some (rootComment, None)) \<Rightarrow> Inl CommentNotFound
              | Inr (Some (rootComment, Some a)) \<Rightarrow>
                  (let newAnswer =
                     \<lparr> cm_id = fresh, articleId = a_id a, answerOf = Some (ObjectId ident),
                       userName = u_name u, userEmail = u_email u, message = answer,
                       readedAt = None, createdAt = now \<rparr>
                   in Inr (d\<lparr>comments := comments d @ [newAnswer]\<rparr>,
                           afterSave sendNotification rootComment newAnswer))))"

subsection \<open>commentsJob\<close>

text \<open>
  \<open>new Date(year, month, day)\<close> as a point in time: the day number of the first of the
  month (the civil-calendar rule), plus \<open>day - 1\<close> days, at 0:00 local time. \<open>month\<close>
  counts from 0; a day past the month's end runs into the next month. \<open>zone\<close> is what
  local time lies behind UTC, in milliseconds, taken as constant.
\<close>

definition daysFromCivil :: "int \<Rightarrow> int \<Rightarrow> int \<Rightarrow> int" where
  "daysFromCivil y m dd =
     (let y' = (if m \<le> 2 then y - 1 else y);
          era = y' div 400;
          yoe = y' - era * 400;
          doy = (153 * (if m > 2 then m - 3 else m + 9) + 2) div 5 + dd - 1;
          doe = yoe * 365 + yoe div 4 - yoe div 100 + doy
      in era * 146097 + doe - 719468)"

definition msPerDay :: int where
  "msPerDay = 86400000"

definition makeDate :: "int \<Rightarrow> int \<Rightarrow> int \<Rightarrow> int \<Rightarrow> time" where
  "makeDate zone year month day =
     (daysFromCivil (year + month div 12) (month mod 12 + 1) 1 + (day - 1)) * msPerDay + zone"

text \<open>The two counts of the job: a user's root comments in the window, and all of them.\<close>

definition userComments :: "db \<Rightarrow> userDoc \<Rightarrow> time \<Rightarrow> time \<Rightarrow> nat" where
  "userComments d u firstDay lastDay =
     length (filter
       (\<lambda>c. (case joinedArticle d c of None \<Rightarrow> False
               | Some a \<Rightarrow> author a = Some (ObjectId (toString (ud_id u))))
            \<and> answerOf c = None \<and> createdAt c \<ge> firstDay \<and> createdAt c < lastDay)
       (comments d))"

definition allComments :: "db \<Rightarrow> time \<Rightarrow> time \<Rightarrow> nat" where
  "allComments d firstDay lastDay =
     length (filter (\<lambda>c. createdAt c \<ge> firstDay \<and> createdAt c < lastDay \<and> answerOf c = None)
       (comments d))"

text \<open>
  \<open>commentsJob\<close>, run with \<open>new Date().getMonth()\<close> and \<open>new Date().getFullYear()\<close>. The
  inserts are not awaited one after the other, so the order of the new rows among
  themselves is the scheduler's; the model lists the users' rows first.
\<close>

definition userRow :: "int \<Rightarrow> db \<Rightarrow> int \<Rightarrow> int \<Rightarrow> userDoc \<Rightarrow> statRow" where
  "userRow zone d currentYear currentMonth u =
     \<lparr> st_month = currentMonth + 1,
       st_count = userComments d u (makeDate zone currentYear currentMonth 1)
                    (makeDate zone currentYear currentMonth 31),
       st_year = currentYear,
       st_reference = Some (toString (ud_id u)) \<rparr>"

definition globalRow :: "int \<Rightarrow> db \<Rightarrow> int \<Rightarrow> int \<Rightarrow> statRow" where
  "globalRow zone d currentYear currentMonth =
     \<lparr> st_month = currentMonth + 1,
       st_count = allComments d (makeDate zone currentYear currentMonth 1)
                    (makeDate zone currentYear currentMonth 31),
       st_year = currentYear,
       st_reference = None \<rparr>"

definition commentsJob :: "int \<Rightarrow> db \<Rightarrow> int \<Rightarrow> int \<Rightarrow> db" where
  "commentsJob zone d currentYear currentMonth =
     d\<lparr>stats :=
         stats d
         @ map (userRow zone d currentYear currentMonth)
             (filter (\<lambda>u. deletedAt u = None) (users d))
         @ [globalRow zone d currentYear currentMonth]\<rparr>"

section \<open>Notions the statements use\<close>

subsection \<open>Articles\<close>

text \<open>
  The origin states the specification declares for each target of a bulk change:
  published admits from inactivated or draft, boosted from published, inactivated from
  published or boosted, removed from draft only.
\<close>

definition originStates :: "string \<Rightarrow> string list" where
  "originStates s =
     (if s = ''published'' then [''inactivated'', ''draft'']
      else if s = ''boosted'' then [''published'']
      else if s = ''inactivated'' then [''published'', ''boosted'']
      else if s = ''removed'' then [''draft'']
      else [])"

text \<open>The store keeps \<open>_id\<close> unique within a collection.\<close>

definition uniqueIds :: "db \<Rightarrow> bool" where
  "uniqueIds d = distinct (map a_id (articles d))"

text \<open>The errors of \<open>changeStates\<close> that speak of the request as a whole.\<close>

definition requestError :: "error \<Rightarrow> bool" where
  "requestError e =
     (case e of
        InvalidState \<Rightarrow> True
      | ArticlesIdNotArray \<Rightarrow> True
      | ArticlesIdEmpty \<Rightarrow> True
      | ArticlesIdInvalid i \<Rightarrow> True
      | MultiBoostLimit \<Rightarrow> True
      | _ \<Rightarrow> False)"

text \<open>The condition \<open>countBoosted\<close> counts by.\<close>

definition boostedOf :: "string \<Rightarrow> article \<Rightarrow> bool" where
  "boostedOf w a = (userId a = ObjectId w \<and> state a = ''boosted'')"

text \<open>
  A sequence of state-changing requests. A request that is refused leaves the store as it
  was.
\<close>

datatype call =
    ChangeState string user string time
  | ChangeStates user "string list option" string

fun actor :: "call \<Rightarrow> user" where
  "actor (ChangeState ident u s now) = u"
| "actor (ChangeStates u articlesId s) = u"

fun exec :: "db \<Rightarrow> call \<Rightarrow> db" where
  "exec d (ChangeState ident u s now) =
     (case changeState d ident u s now of Inl e \<Rightarrow> d | Inr d' \<Rightarrow> d')"
| "exec d (ChangeStates u articlesId s) =
     (case changeStates d u articlesId s of Inl e \<Rightarrow> d | Inr d' \<Rightarrow> d')"

text \<open>The callers the boost limit holds for: the author, or another user without the admin tag.\<close>

definition authorOrOther :: "user \<Rightarrow> call \<Rightarrow> bool" where
  "authorOrOther u c =
     (if ObjectId (uid (actor c)) = ObjectId (uid u) then actor c = u
      else \<not> tagAdmin (actor c))"

subsection \<open>Settings\<close>

text \<open>
  What a body supplies, as the merge reads it: a property that is 0 or the empty string
  counts as not supplied. The value after a save is the one supplied, else the earlier one.
\<close>

definition givenNumber :: "int option \<Rightarrow> int option" where
  "givenNumber v = (if v = Some 0 then None else v)"

definition givenString :: "string option \<Rightarrow> string option" where
  "givenString v = (if v = Some [] then None else v)"

definition suppliedOr :: "'a option \<Rightarrow> 'a \<Rightarrow> 'a" where
  "suppliedOr v earlier = (case v of None \<Rightarrow> earlier | Some x \<Rightarrow> x)"

subsection \<open>Comments\<close>

text \<open>
  A root comment of the author \<open>u\<close>: it answers no comment, and the article it is on has
  \<open>u\<close> as its author.
\<close>

definition rootCommentOf :: "db \<Rightarrow> user \<Rightarrow> comment \<Rightarrow> bool" where
  "rootCommentOf d u c =
     (answerOf c = None
      \<and> list_ex (\<lambda>a. a_id a = articleId c \<and> author a = Some (ObjectId (uid u))) (articles d))"

text \<open>The user has a well-formed id and a document in the store.\<close>

definition knownUser :: "db \<Rightarrow> user \<Rightarrow> bool" where
  "knownUser d u = (isValid (uid u) \<and> list_ex (\<lambda>x. ud_id x = ObjectId (uid u)) (users d))"

text \<open>Every answer names a stored comment (comments are never deleted).\<close>

definition answersResolve :: "db \<Rightarrow> bool" where
  "answersResolve d =
     list_all (\<lambda>c. case answerOf c of None \<Rightarrow> True | Some w \<Rightarrow> list_ex (\<lambda>x. cm_id x = w) (comments d))
       (comments d)"

subsection \<open>The calendar\<close>

text \<open>The length of a month (counted from 0), with the Gregorian leap years.\<close>

definition leapYear :: "int \<Rightarrow> bool" where
  "leapYear y = (y mod 4 = 0 \<and> (y mod 100 \<noteq> 0 \<or> y mod 400 = 0))"

definition daysInMonth :: "int \<Rightarrow> int \<Rightarrow> int" where
  "daysInMonth y m =
     (if m = 1 then (if leapYear y then 29 else 28)
      else if m = 3 \<or> m = 5 \<or> m = 8 \<or> m = 10 then 30
      else 31)"

text \<open>The days from the start of the proleptic calendar to the end of year \<open>n\<close>.\<close>

definition daysBefore :: "int \<Rightarrow> int" where
  "daysBefore n = 365 * n + n div 4 - n div 100 + n div 400"

text \<open>
  The number of the root comments of \<open>u\<close> created from \<open>t1\<close> on and before \<open>t2\<close>, and
  the number of all root comments created then.
\<close>

definition rootCommentsIn :: "db \<Rightarrow> user \<Rightarrow> time \<Rightarrow> time \<Rightarrow> nat" where
  "rootCommentsIn d u t1 t2 =
     length (filter (\<lambda>c. rootCommentOf d u c \<and> t1 \<le> createdAt c \<and> createdAt c < t2)
       (comments d))"

definition allRootCommentsIn :: "db \<Rightarrow> time \<Rightarrow> time \<Rightarrow> nat" where
  "allRootCommentsIn d t1 t2 =
     length (filter (\<lambda>c. answerOf c = None \<and> t1 \<le> createdAt c \<and> createdAt c < t2)
       (comments d))"

section \<open>Example data\<close>

text \<open>
  Two users and a few small collections, used where a statement is evaluated on concrete
  input. \<open>ana\<close> is an author without the admin tag, \<open>root\<close> an admin.
\<close>

definition ana :: user where
  "ana = \<lparr> uid = ''5f00000000000000000000a1'', tagAdmin = False, tagAuthor = True,
           u_name = ''ana'', u_email = ''ana@cm'' \<rparr>"

definition root :: user where
  "root = \<lparr> uid = ''5f00000000000000000000b2'', tagAdmin = True, tagAuthor = False,
            u_name = ''root'', u_email = ''root@cm'' \<rparr>"

definition exArticle :: "string \<Rightarrow> string \<Rightarrow> string \<Rightarrow> time option \<Rightarrow> article" where
  "exArticle i u s r =
     \<lparr> a_id = ObjectId i, title = ''t'', userId = ObjectId u, author = Some (ObjectId u),
       state = s, customUri = ''c'', themeId = None, categoryId = None, publishedAt = None,
       boostedAt = None, inactivatedAt = None, removedAt = r \<rparr>"

definition id1 :: string where "id1 = ''5f0000000000000000000001''"
definition id2 :: string where "id2 = ''5f0000000000000000000002''"
definition id3 :: string where "id3 = ''5f0000000000000000000003''"

definition noPatch :: patch where
  "noPatch = \<lparr> p_title = None, p_customUri = None, p_themeId = None, p_categoryId = None,
               p_userId = None, p_state = None, p_logoImg = None, p_secondaryImg = None,
               p_headerImg = None, p_removedAt = None \<rparr>"

text \<open>No article at all.\<close>

definition dbEmpty :: db where
  "dbEmpty = \<lparr> articles = [], themes = [], categories = [], users = [], comments = [],
               comment_settings = [], stats = [] \<rparr>"

text \<open>\<open>ana\<close> owns two boosted articles and a published one.\<close>

definition dbTwoBoosted :: db where
  "dbTwoBoosted =
     \<lparr> articles = [exArticle id1 (uid ana) ''boosted'' None,
                   exArticle id2 (uid ana) ''boosted'' None,
                   exArticle id3 (uid ana) ''published'' None],
       themes = [], categories = [], users = [], comments = [], comment_settings = [],
       stats = [] \<rparr>"

text \<open>One removed article of \<open>ana\<close>, and the same store after she publishes it again.\<close>

definition dbRemoved :: db where
  "dbRemoved =
     \<lparr> articles = [exArticle id1 (uid ana) ''removed'' (Some 5)],
       themes = [], categories = [], users = [], comments = [], comment_settings = [],
       stats = [] \<rparr>"

definition dbRevived :: db where
  "dbRevived =
     \<lparr> articles = [(exArticle id1 (uid ana) ''published'' (Some 5))\<lparr>publishedAt := Some 9\<rparr>],
       themes = [], categories = [], users = [], comments = [], comment_settings = [],
       stats = [] \<rparr>"

text \<open>A draft and a published article of \<open>ana\<close>.\<close>

definition dbDraft :: db where
  "dbDraft =
     \<lparr> articles = [exArticle id1 (uid ana) ''draft'' None,
                   exArticle id2 (uid ana) ''published'' None],
       themes = [], categories = [], users = [], comments = [], comment_settings = [],
       stats = [] \<rparr>"

text \<open>
  The users' documents, an article of \<open>ana\<close>, two root comments on it (the second one
  read) and an answer to the first.
\<close>

definition anaDoc :: userDoc where
  "anaDoc = \<lparr> ud_id = ObjectId (uid ana), deletedAt = None \<rparr>"

definition exComment :: "string \<Rightarrow> objectId option \<Rightarrow> time option \<Rightarrow> time \<Rightarrow> comment" where
  "exComment i parent r t =
     \<lparr> cm_id = ObjectId i, articleId = ObjectId id1, answerOf = parent, userName = ''reader'',
       userEmail = ''reader@cm'', message = ''hello'', readedAt = r, createdAt = t \<rparr>"

definition cid1 :: string where "cid1 = ''5f00000000000000000000c1''"
definition cid2 :: string where "cid2 = ''5f00000000000000000000c2''"
definition cid3 :: string where "cid3 = ''5f00000000000000000000c3''"
definition cid4 :: string where "cid4 = ''5f00000000000000000000c4''"

definition dbComments :: db where
  "dbComments =
     \<lparr> articles = [exArticle id1 (uid ana) ''published'' None],
       themes = [], categories = [], users = [anaDoc],
       comments = [exComment cid1 None None 100,
                   exComment cid2 None (Some 150) 120,
                   exComment cid3 (Some (ObjectId cid1)) None 130],
       comment_settings = [], stats = [] \<rparr>"

text \<open>The settings of \<open>ana\<close>: ten comments a page, no notification.\<close>

definition anaSettings :: settingsRow where
  "anaSettings =
     \<lparr> r_userId = uid ana, r_type = ''all'', r_order = ''desc'', r_limit = 10, r_notify = 0,
       r_answers_type = ''all'', r_answers_order = ''desc'' \<rparr>"

definition dbSettings :: db where
  "dbSettings =
     \<lparr> articles = [], themes = [], categories = [], users = [anaDoc], comments = [],
       comment_settings = [anaSettings], stats = [] \<rparr>"

text \<open>A body that sets the listing to the unread comments in ascending order.\<close>

definition exPatch :: settingsPatch where
  "exPatch =
     \<lparr> s_notify = None, s_limit = None, s_order = Some ''asc'', s_type = Some ''not-readed'',
       s_answersOrder = None, s_answersType = None \<rparr>"

text \<open>A published article of \<open>root\<close> and one of \<open>ana\<close>.\<close>

definition dbMixed :: db where
  "dbMixed =
     \<lparr> articles = [exArticle id1 (uid root) ''published'' None,
                   exArticle id2 (uid ana) ''published'' None],
       themes = [], categories = [], users = [], comments = [], comment_settings = [],
       stats = [] \<rparr>"

text \<open>The store \<open>dbDraft\<close> after \<open>ana\<close> has removed her draft in bulk.\<close>

definition dbDraftRemoved :: db where
  "dbDraftRemoved =
     \<lparr> articles = [exArticle id1 (uid ana) ''removed'' None,
                   exArticle id2 (uid ana) ''published'' None],
       themes = [], categories = [], users = [], comments = [], comment_settings = [],
       stats = [] \<rparr>"

text \<open>
  An article of \<open>ana\<close> and one of \<open>root\<close>; on the first two root comments (the second
  one read) and an answer, on the second a root comment.
\<close>

definition rootDoc :: userDoc where
  "rootDoc = \<lparr> ud_id = ObjectId (uid root), deletedAt = None \<rparr>"

definition commentOn ::
  "string \<Rightarrow> string \<Rightarrow> objectId option \<Rightarrow> time option \<Rightarrow> time \<Rightarrow> comment" where
  "commentOn i art parent r t =
     \<lparr> cm_id = ObjectId i, articleId = ObjectId art, answerOf = parent, userName = ''reader'',
       userEmail = ''reader@cm'', message = ''hello'', readedAt = r, createdAt = t \<rparr>"

definition dbListing :: db where
  "dbListing =
     \<lparr> articles = [exArticle id1 (uid ana) ''published'' None,
                   exArticle id2 (uid root) ''published'' None],
       themes = [], categories = [], users = [anaDoc, rootDoc],
       comments = [commentOn cid1 id1 None None 100,
                   commentOn cid2 id1 None (Some 150) 120,
                   commentOn cid3 id1 (Some (ObjectId cid1)) None 130,
                   commentOn cid4 id2 None None 140],
       comment_settings = [], stats = [] \<rparr>"

text \<open>A body with a page size of 0 and an empty type.\<close>

definition zeroPatch :: settingsPatch where
  "zeroPatch =
     \<lparr> s_notify = Some False, s_limit = Some 0, s_order = None, s_type = Some [],
       s_answersOrder = None, s_answersType = None \<rparr>"

text \<open>
  Four points in time, in UTC: 15 January 2021 0:00, 16 January 0:00, 30 January 12:00
  and 31 January 12:00.
\<close>

definition jan15 :: time where "jan15 = 1610668800000"
definition jan16 :: time where "jan16 = 1610755200000"
definition jan30noon :: time where "jan30noon = 1612008000000"
definition jan31noon :: time where "jan31noon = 1612094400000"

text \<open>
  The store of \<open>dbListing\<close> with these dates: on the article of \<open>ana\<close> a root comment of
  15 January, one of 31 January at noon and an answer; on the article of \<open>root\<close> a root
  comment of 30 January at noon.
\<close>

definition dbJob :: db where
  "dbJob =
     \<lparr> articles = [exArticle id1 (uid ana) ''published'' None,
                   exArticle id2 (uid root) ''published'' None],
       themes = [], categories = [], users = [anaDoc, rootDoc],
       comments = [commentOn cid1 id1 None None jan15,
                   commentOn cid2 id1 None None jan31noon,
                   commentOn cid3 id1 (Some (ObjectId cid1)) None jan16,
                   commentOn cid4 id2 None None jan30noon],
       comment_settings = [], stats = [] \<rparr>"

lemmas ex_defs =
  ana_def root_def exArticle_def id1_def id2_def id3_def noPatch_def dbEmpty_def
  dbTwoBoosted_def dbRemoved_def dbRevived_def dbDraft_def dbDraftRemoved_def dbMixed_def
  anaDoc_def rootDoc_def exComment_def commentOn_def cid1_def cid2_def cid3_def cid4_def
  dbComments_def dbListing_def anaSettings_def dbSettings_def exPatch_def zeroPatch_def
  jan15_def jan16_def jan30noon_def jan31noon_def dbJob_def

section \<open>Facts about identifiers\<close>

lemma lowerHex_isHex: "isHex c \<Longrightarrow> isHex (lowerHex c)"
  by (auto simp: isHex_def lowerHex_def)

lemma lowerHex_idem: "lowerHex (lowerHex c) = lowerHex c"
  by (simp add: lowerHex_def)

lemma hexDigit_in: "hexDigit n \<in> set ''0123456789abcdef''"
  unfolding hexDigit_def by (rule nth_mem) simp

lemma hexDigit_isHex: "isHex (hexDigit n)"
  using hexDigit_in [of n] by (auto simp: isHex_def)

lemma hexDigit_lower: "lowerHex (hexDigit n) = hexDigit n"
  using hexDigit_in [of n] by (auto simp: lowerHex_def)

lemma hexBytes_length: "length (concat (map hexByte s)) = 2 * length s"
  by (induction s) (simp_all add: hexByte_def)

lemma hexBytes_isHex: "list_all isHex (concat (map hexByte s))"
  by (induction s) (simp_all add: hexByte_def hexDigit_isHex)

lemma hexBytes_lower: "map lowerHex (concat (map hexByte s)) = concat (map hexByte s)"
  by (induction s) (simp_all add: hexByte_def hexDigit_lower)

text \<open>Casting the text of an ObjectId gives that ObjectId again.\<close>

lemma canonical_idem: "canonical (canonical s) = canonical s"
proof (cases "length s = 24 \<and> list_all isHex s")
  case True
  then have "list_all isHex (map lowerHex s)"
    by (simp add: list_all_iff lowerHex_isHex)
  with True show ?thesis
    by (simp add: canonical_def lowerHex_idem)
next
  case False
  show ?thesis
  proof (cases "length s = 12")
    case True
    with False show ?thesis
      by (simp add: canonical_def hexBytes_length hexBytes_isHex hexBytes_lower)
  next
    case False
    with \<open>\<not> (length s = 24 \<and> list_all isHex s)\<close> have "canonical s = s"
      by (auto simp: canonical_def)
    then show ?thesis by (simp only:)
  qed
qed

lemma ObjectId_toString: "ObjectId (toString (ObjectId s)) = ObjectId s"
  by (simp add: ObjectId_def canonical_idem)

text \<open>The casts of the example identifiers.\<close>

lemma oid_simps:
  "ObjectId ''5f0000000000000000000001'' = Oid ''5f0000000000000000000001''"
  "ObjectId ''5f0000000000000000000002'' = Oid ''5f0000000000000000000002''"
  "ObjectId ''5f0000000000000000000003'' = Oid ''5f0000000000000000000003''"
  "ObjectId ''5f00000000000000000000a1'' = Oid ''5f00000000000000000000a1''"
  "ObjectId ''5f00000000000000000000b2'' = Oid ''5f00000000000000000000b2''"
  "ObjectId ''5f00000000000000000000c1'' = Oid ''5f00000000000000000000c1''"
  "ObjectId ''5f00000000000000000000c2'' = Oid ''5f00000000000000000000c2''"
  "ObjectId ''5f00000000000000000000c3'' = Oid ''5f00000000000000000000c3''"
  "ObjectId ''5f00000000000000000000c4'' = Oid ''5f00000000000000000000c4''"
  by (simp_all add: ObjectId_def canonical_def isHex_def lowerHex_def)

lemma upper_case_cast:
  "ObjectId ''5F00000000000000000000A1'' = ObjectId ''5f00000000000000000000a1''"
  by (simp add: ObjectId_def canonical_def isHex_def lowerHex_def)

section \<open>Facts about the store operations\<close>

lemma updateOne_length [simp]: "length (updateOne P f xs) = length xs"
  by (induction xs) auto

lemma updateMany_length [simp]: "length (updateMany P f xs) = length xs"
  by (simp add: updateMany_def)

lemma updateMany_nth_skip:
  "i < length xs \<Longrightarrow> \<not> P (xs ! i) \<Longrightarrow> updateMany P f xs ! i = xs ! i"
  by (simp add: updateMany_def)

lemma updateOne_rel:
  assumes "\<And>x. R x x" and "\<And>x. P x \<Longrightarrow> R x (f x)"
  shows "list_all2 R xs (updateOne P f xs)"
  using assms by (induction xs) (auto intro: list_all2_refl)

lemma updateMany_rel:
  assumes "\<And>x. R x x" and "\<And>x. P x \<Longrightarrow> R x (f x)"
  shows "list_all2 R xs (updateMany P f xs)"
  unfolding updateMany_def list_all2_map2 using assms by (auto intro: list_all2_refl)

lemma find_updateOne:
  assumes "\<And>x. P x \<Longrightarrow> P (f x)"
  shows "find P (updateOne P f xs) = map_option f (find P xs)"
  using assms by (induction xs) auto

lemma find_updateMany:
  assumes "\<And>x. P x \<Longrightarrow> P (f x)"
  shows "find P (updateMany P f xs) = map_option f (find P xs)"
  unfolding updateMany_def using assms by (induction xs) auto

lemma updateOne_map_id:
  assumes "\<And>x. g (f x) = g x"
  shows "map g (updateOne P f xs) = map g xs"
  using assms by (induction xs) auto

lemma updateMany_map_id:
  assumes "\<And>x. g (f x) = g x"
  shows "map g (updateMany P f xs) = map g xs"
  using assms by (simp add: updateMany_def)

lemma updateOne_count_le:
  "length (filter Q (updateOne P f xs)) \<le> Suc (length (filter Q xs))"
  by (induction xs) auto

lemma updateOne_count_same:
  assumes "find P xs = Some a" and "Q (f a) = Q a"
  shows "length (filter Q (updateOne P f xs)) = length (filter Q xs)"
  using assms by (induction xs) (auto split: if_splits)

lemma count_mono:
  assumes "\<And>x. x \<in> set xs \<Longrightarrow> Q (g x) \<Longrightarrow> R x"
  shows "length (filter Q (map g xs)) \<le> length (filter R xs)"
  using assms
proof (induction xs)
  case Nil
  then show ?case by simp
next
  case (Cons x xs)
  then have "length (filter Q (map g xs)) \<le> length (filter R xs)" by simp
  moreover have "Q (g x) \<Longrightarrow> R x" using Cons.prems by simp
  ultimately show ?case by auto
qed

lemma count_split:
  "length (filter P xs) =
     length (filter (\<lambda>x. P x \<and> R x) xs) + length (filter (\<lambda>x. P x \<and> \<not> R x) xs)"
  by (induction xs) auto

lemma distinct_count_le_one:
  assumes "distinct (map g xs)"
  shows "length (filter (\<lambda>x. g x = v) xs) \<le> 1"
  using assms
proof (induction xs)
  case Nil
  then show ?case by simp
next
  case (Cons x xs)
  show ?case
  proof (cases "g x = v")
    case True
    with Cons.prems have "v \<notin> g ` set xs" by simp
    then have "filter (\<lambda>x. g x = v) xs = []" by (auto simp: filter_empty_conv)
    with True show ?thesis by simp
  next
    case False
    with Cons show ?thesis by simp
  qed
qed

lemma same_id_same_article:
  assumes "distinct (map a_id xs)" "x \<in> set xs" "y \<in> set xs" "a_id x = a_id y"
  shows "x = y"
  using assms by (meson distinct_map inj_onD)

section \<open>Theorems on the articles module\<close>

subsection \<open>What a successful call has done\<close>

lemma setTimestamp_fields [simp]:
  "a_id (setTimestamp k v a) = a_id a"
  "userId (setTimestamp k v a) = userId a"
  "state (setTimestamp k v a) = state a"
  by (simp_all add: setTimestamp_def)

lemma setTimestamp_removedAt:
  "k \<noteq> ''removedAt'' \<Longrightarrow> removedAt (setTimestamp k v a) = removedAt a"
  by (simp add: setTimestamp_def)

lemma validateState_key:
  assumes "validateState d ident u s = Inr (a, k)"
  shows "k = s @ ''At'' \<and> s \<noteq> ''removed''
         \<and> find (\<lambda>x. a_id x = ObjectId ident) (articles d) = Some a
         \<and> (tagAdmin u \<or> uid u = toString (userId a))
         \<and> state a \<noteq> s
         \<and> (tagAuthor u \<longrightarrow> countBoosted d (uid u) \<le> 1)"
  using assms
  by (auto simp: validateState_def findOneArticle_def split: if_splits option.splits sum.splits)

lemma changeState_articles:
  assumes "changeState d ident u s now = Inr d'"
  obtains a v where "validateState d ident u s = Inr (a, s @ ''At'')"
    and "articles d' =
           updateOne (\<lambda>x. a_id x = ObjectId ident)
             (\<lambda>x. setTimestamp (s @ ''At'') v (x\<lparr>state := s\<rparr>)) (articles d)"
proof -
  from assms obtain a k where v: "validateState d ident u s = Inr (a, k)"
    by (auto simp: changeState_def split: sum.splits)
  then have k: "k = s @ ''At''" using validateState_key by blast
  from assms v k show ?thesis
    by (auto simp: changeState_def intro: that)
qed

lemma changeStates_articles:
  assumes "changeStates d u articlesId s = Inr d'"
  obtains ids where "checkArticlesForMultipleChanges d u articlesId s = Inr ids"
    and "articles d' =
           updateMany (\<lambda>a. a_id a \<in> set ids \<and> userId a = ObjectId (uid u))
             (\<lambda>a. a\<lparr>state := s\<rparr>) (articles d)"
  using assms by (auto simp: changeStates_def split: sum.splits)

lemma changeStates_error:
  assumes "changeStates d u articlesId s = Inl e"
  shows "requestError e"
  using assms
  by (auto simp: changeStates_def checkArticlesForMultipleChanges_def checkValidStates_def
      requestError_def split: sum.splits option.splits if_splits)

lemma articlesToChange_origin:
  "b \<in> set (articlesToChange s found) \<Longrightarrow> b \<in> set found \<and> state b \<in> set (originStates s)"
  unfolding articlesToChange_def originStates_def by (simp split: if_splits)

lemma articlesToChange_subset: "set (articlesToChange s found) \<subseteq> set found"
  by (auto simp: articlesToChange_def)

lemma checked_ids_given:
  assumes "checkArticlesForMultipleChanges d u articlesId s = Inr ids"
  obtains l where "articlesId = Some l" "l \<noteq> []"
    and "ids = map a_id (articlesToChange s (filter (\<lambda>a. a_id a \<in> set (map ObjectId l)) (articles d)))"
    and "tagAdmin u \<or> s \<noteq> ''boosted'' \<or> (countBoosted d (uid u) = 0 \<and> length l \<le> 1)"
  using assms unfolding checkArticlesForMultipleChanges_def
  by (auto split: option.splits if_splits)

lemma checked_ids_origin:
  assumes "checkArticlesForMultipleChanges d u articlesId s = Inr ids" and "x \<in> set ids"
  shows "\<exists>b \<in> set (articles d). a_id b = x \<and> state b \<in> set (originStates s)"
proof -
  from assms(1) obtain l where
    "ids = map a_id (articlesToChange s (filter (\<lambda>a. a_id a \<in> set (map ObjectId l)) (articles d)))"
    by (rule checked_ids_given)
  with assms(2) obtain b where
    "b \<in> set (articlesToChange s (filter (\<lambda>a. a_id a \<in> set (map ObjectId l)) (articles d)))" "a_id b = x"
    by auto
  moreover from this(1) have "b \<in> set (articles d) \<and> state b \<in> set (originStates s)"
    using articlesToChange_origin [of b s "filter (\<lambda>a. a_id a \<in> set (map ObjectId l)) (articles d)"]
    by simp
  ultimately show ?thesis by blast
qed

subsection \<open>C1: removedAt and the state removed\<close>

text \<open>
  C1. \<open>ana\<close> removes her draft through \<open>changeStates\<close>: the call succeeds and the
  article is in state \<open>removed\<close> with \<open>removedAt\<close> unset. The bulk path writes the state
  alone, where \<open>remove\<close> also stamps \<open>removedAt\<close>.
\<close>

theorem changeStates_removed_without_stamp:
  "changeStates dbDraft ana (Some [id1]) ''removed'' = Inr dbDraftRemoved
   \<and> map state (articles dbDraftRemoved) = [''removed'', ''published'']
   \<and> map removedAt (articles dbDraftRemoved) = [None, None]"
  by (simp add: changeStates_def checkArticlesForMultipleChanges_def checkValidStates_def
      isValid_def isHex_def articlesToChange_def updateMany_def countBoosted_def
      ex_defs oid_simps)

text \<open>
  The sibling: \<open>remove\<close> on the same draft, by an admin, leaves it removed with
  \<open>removedAt\<close> set to the time of the call.
\<close>

lemma remove_stamps:
  "remove dbDraft id1 root 9 ''uri0'' =
     Inr (dbDraft\<lparr>articles :=
            [(exArticle id1 (uid ana) ''removed'' (Some 9))\<lparr>customUri := ''uri0''\<rparr>,
             exArticle id2 (uid ana) ''published'' None]\<rparr>)"
  by (simp add: remove_def findOneArticle_def isValid_def isHex_def ex_defs oid_simps)

text \<open>
  Two more ways in which the code leaves the property. \<open>changeState\<close> has no test of the
  state an article comes from: the owner of a removed article asks for \<open>published\<close>
  and the article is published with \<open>removedAt\<close> still set. On that article \<open>remove\<close>
  then writes a new \<open>removedAt\<close> over the one that was set.
\<close>

lemma changeState_revives_removed:
  "map state (articles dbRemoved) = [''removed'']
   \<and> map removedAt (articles dbRemoved) = [Some 5]
   \<and> changeState dbRemoved id1 ana ''published'' 9 = Inr dbRevived
   \<and> map state (articles dbRevived) = [''published'']
   \<and> map removedAt (articles dbRevived) = [Some 5]"
  by (simp add: changeState_def validateState_def checkValidStates_def findOneArticle_def
      isValid_def isHex_def countBoosted_def getTimestamp_def setTimestamp_def
      ex_defs oid_simps)

lemma remove_stamps_again:
  "remove dbRevived id1 root 20 ''uri0'' =
     Inr (dbRevived\<lparr>articles :=
            [(exArticle id1 (uid ana) ''removed'' (Some 20))
               \<lparr>publishedAt := Some 9, customUri := ''uri0''\<rparr>]\<rparr>)"
  by (simp add: remove_def findOneArticle_def isValid_def isHex_def ex_defs oid_simps)

text \<open>What holds on the code: \<open>changeState\<close> and \<open>changeStates\<close> never write \<open>removedAt\<close>.\<close>

lemma changeState_keeps_removedAt:
  assumes "changeState d ident u s now = Inr d'"
  shows "map removedAt (articles d') = map removedAt (articles d)"
proof -
  from assms obtain a v where
    val: "validateState d ident u s = Inr (a, s @ ''At'')" and
    upd: "articles d' =
           updateOne (\<lambda>x. a_id x = ObjectId ident)
             (\<lambda>x. setTimestamp (s @ ''At'') v (x\<lparr>state := s\<rparr>)) (articles d)"
    by (rule changeState_articles)
  from val have "s \<noteq> ''removed''" using validateState_key by blast
  then have k: "s @ ''At'' \<noteq> ''removedAt''" by simp
  show ?thesis unfolding upd
    by (rule updateOne_map_id) (simp add: setTimestamp_removedAt [OF k])
qed

lemma changeStates_keeps_removedAt:
  assumes "changeStates d u articlesId s = Inr d'"
  shows "map removedAt (articles d') = map removedAt (articles d)"
proof -
  from assms obtain ids where
    upd: "articles d' =
           updateMany (\<lambda>a. a_id a \<in> set ids \<and> userId a = ObjectId (uid u))
             (\<lambda>a. a\<lparr>state := s\<rparr>) (articles d)"
    by (rule changeStates_articles)
  show ?thesis unfolding upd by (rule updateMany_map_id) simp
qed

subsection \<open>C2: the boost limit over a sequence of calls\<close>

lemma countBoosted_alt: "countBoosted d w = length (filter (boostedOf w) (articles d))"
proof -
  have "boostedOf w = (\<lambda>a. userId a = ObjectId w \<and> state a = ''boosted'')"
    by (simp add: boostedOf_def fun_eq_iff)
  then show ?thesis by (simp add: countBoosted_def)
qed

lemma changeState_uniqueIds:
  assumes "changeState d ident u s now = Inr d'" and "uniqueIds d"
  shows "uniqueIds d'"
proof -
  from assms(1) obtain b v where
    "validateState d ident u s = Inr (b, s @ ''At'')" and
    upd: "articles d' =
           updateOne (\<lambda>x. a_id x = ObjectId ident)
             (\<lambda>x. setTimestamp (s @ ''At'') v (x\<lparr>state := s\<rparr>)) (articles d)"
    by (rule changeState_articles)
  have "map a_id (articles d') = map a_id (articles d)"
    unfolding upd by (rule updateOne_map_id) simp
  with assms(2) show ?thesis by (simp add: uniqueIds_def)
qed

lemma changeStates_uniqueIds:
  assumes "changeStates d u articlesId s = Inr d'" and "uniqueIds d"
  shows "uniqueIds d'"
proof -
  from assms(1) obtain ids where
    upd: "articles d' =
           updateMany (\<lambda>a. a_id a \<in> set ids \<and> userId a = ObjectId (uid u))
             (\<lambda>a. a\<lparr>state := s\<rparr>) (articles d)"
    by (rule changeStates_articles)
  have "map a_id (articles d') = map a_id (articles d)"
    unfolding upd by (rule updateMany_map_id) simp
  with assms(2) show ?thesis by (simp add: uniqueIds_def)
qed

text \<open>
  One \<open>changeState\<close> by a caller without the admin tag: her own count was at most one, or
  the article is not one of \<open>w\<close>'s.
\<close>

lemma changeState_boosted_bound:
  assumes ok: "changeState d ident v s now = Inr d'"
    and nonadmin: "\<not> tagAdmin v"
    and auth: "ObjectId (uid v) = ObjectId w \<Longrightarrow> tagAuthor v"
    and bound: "countBoosted d w \<le> 2"
  shows "countBoosted d' w \<le> 2"
proof -
  from ok obtain a t where
    val: "validateState d ident v s = Inr (a, s @ ''At'')" and
    upd: "articles d' =
           updateOne (\<lambda>x. a_id x = ObjectId ident)
             (\<lambda>x. setTimestamp (s @ ''At'') t (x\<lparr>state := s\<rparr>)) (articles d)"
    by (rule changeState_articles)
  from validateState_key [OF val] nonadmin have
    f: "find (\<lambda>x. a_id x = ObjectId ident) (articles d) = Some a" and
    own: "uid v = toString (userId a)" and
    quota: "tagAuthor v \<longrightarrow> countBoosted d (uid v) \<le> 1"
    by auto
  show ?thesis
  proof (cases "ObjectId (uid v) = ObjectId w")
    case True
    then have "countBoosted d w = countBoosted d (uid v)"
      by (simp add: countBoosted_def)
    with True auth quota have "countBoosted d w \<le> 1" by simp
    moreover have "countBoosted d' w \<le> Suc (countBoosted d w)"
      unfolding countBoosted_alt upd by (rule updateOne_count_le)
    ultimately show ?thesis by simp
  next
    case False
    have "userId a \<noteq> ObjectId w"
    proof
      assume "userId a = ObjectId w"
      with own have "ObjectId (uid v) = ObjectId (toString (ObjectId w))" by simp
      with False show False by (simp add: ObjectId_toString)
    qed
    then have "boostedOf w (setTimestamp (s @ ''At'') t (a\<lparr>state := s\<rparr>)) = boostedOf w a"
      by (simp add: boostedOf_def)
    then have "countBoosted d' w = countBoosted d w"
      unfolding countBoosted_alt upd by (rule updateOne_count_same [OF f])
    with bound show ?thesis by simp
  qed
qed

text \<open>
  One \<open>changeStates\<close> by a caller without the admin tag: towards \<open>boosted\<close> she had no
  boosted article and gave one id; towards another state no article becomes boosted.
\<close>

lemma changeStates_boosted_bound:
  assumes ok: "changeStates d v articlesId s = Inr d'"
    and nonadmin: "\<not> tagAdmin v"
    and uniq: "uniqueIds d"
    and bound: "countBoosted d w \<le> 2"
  shows "countBoosted d' w \<le> 2"
proof -
  from ok obtain ids where
    chk: "checkArticlesForMultipleChanges d v articlesId s = Inr ids" and
    upd: "articles d' =
           updateMany (\<lambda>a. a_id a \<in> set ids \<and> userId a = ObjectId (uid v))
             (\<lambda>a. a\<lparr>state := s\<rparr>) (articles d)"
    by (rule changeStates_articles)
  let ?P = "\<lambda>a. a_id a \<in> set ids \<and> userId a = ObjectId (uid v)"
  let ?g = "\<lambda>x. if ?P x then x\<lparr>state := s\<rparr> else x"
  have cnt: "countBoosted d' w = length (filter (boostedOf w) (map ?g (articles d)))"
    unfolding countBoosted_alt upd updateMany_def ..
  show ?thesis
  proof (cases "ObjectId (uid v) = ObjectId w \<and> s = ''boosted''")
    case False
    have "length (filter (boostedOf w) (map ?g (articles d)))
            \<le> length (filter (boostedOf w) (articles d))"
      by (rule count_mono) (use False in \<open>auto simp: boostedOf_def split: if_splits\<close>)
    with cnt bound show ?thesis by (simp add: countBoosted_alt)
  next
    case True
    from chk obtain l where l: "l \<noteq> []"
      "ids = map a_id
               (articlesToChange s (filter (\<lambda>a. a_id a \<in> set (map ObjectId l)) (articles d)))"
      "tagAdmin v \<or> s \<noteq> ''boosted'' \<or> (countBoosted d (uid v) = 0 \<and> length l \<le> 1)"
      by (rule checked_ids_given)
    with True nonadmin have "countBoosted d (uid v) = 0" and len: "length l \<le> 1" by auto
    with True have zero: "countBoosted d w = 0" by (simp add: countBoosted_def)
    from l(1) len obtain i0 where i0: "l = [i0]" by (cases l) auto
    from zero have none: "\<And>x. x \<in> set (articles d) \<Longrightarrow> \<not> boostedOf w x"
      by (simp add: countBoosted_alt filter_empty_conv)
    have ids: "\<And>x. x \<in> set ids \<Longrightarrow> x = ObjectId i0"
    proof -
      fix x assume "x \<in> set ids"
      with l(2) obtain b where
        b: "b \<in> set (articlesToChange s
                       (filter (\<lambda>a. a_id a \<in> set (map ObjectId l)) (articles d)))"
        and x: "a_id b = x"
        by auto
      from b have "b \<in> set (filter (\<lambda>a. a_id a \<in> set (map ObjectId l)) (articles d))"
        by (rule subsetD [OF articlesToChange_subset])
      then have "a_id b = ObjectId i0" using i0 by simp
      with x show "x = ObjectId i0" by simp
    qed
    have "length (filter (boostedOf w) (map ?g (articles d)))
            \<le> length (filter (\<lambda>x. a_id x = ObjectId i0) (articles d))"
      by (rule count_mono) (use none ids in \<open>auto split: if_splits\<close>)
    also have "\<dots> \<le> 1"
      using uniq unfolding uniqueIds_def by (rule distinct_count_le_one)
    finally show ?thesis using cnt by simp
  qed
qed

lemma exec_uniqueIds:
  assumes "uniqueIds d"
  shows "uniqueIds (exec d c)"
  using assms
  by (cases c) (auto split: sum.splits dest: changeState_uniqueIds changeStates_uniqueIds)

lemma exec_boosted_bound:
  assumes "\<not> tagAdmin u" "tagAuthor u" "authorOrOther u c" "uniqueIds d"
    "countBoosted d (uid u) \<le> 2"
  shows "countBoosted (exec d c) (uid u) \<le> 2"
proof -
  from assms(1,3) have na: "\<not> tagAdmin (actor c)"
    by (auto simp: authorOrOther_def split: if_splits)
  from assms(2,3) have au: "ObjectId (uid (actor c)) = ObjectId (uid u) \<Longrightarrow> tagAuthor (actor c)"
    by (auto simp: authorOrOther_def split: if_splits)
  show ?thesis
  proof (cases c)
    case (ChangeState ident v s now)
    with na au assms(5) show ?thesis
      by (auto split: sum.splits intro: changeState_boosted_bound)
  next
    case (ChangeStates v articlesId s)
    with na assms(4,5) show ?thesis
      by (auto split: sum.splits intro: changeStates_boosted_bound)
  qed
qed

text \<open>
  C2, as stated, fails. The limit is counted on the caller's own articles, and an admin
  passes the ownership test on any article: \<open>ana\<close> owns two boosted articles, the admin
  \<open>root\<close> boosts her third, and she owns three.
\<close>

theorem boost_limit_counterexample:
  "\<not> tagAdmin ana \<and> tagAuthor ana
   \<and> countBoosted dbTwoBoosted (uid ana) = 2
   \<and> countBoosted (foldl exec dbTwoBoosted [ChangeState id3 root ''boosted'' 7]) (uid ana) = 3"
  by (simp add: changeState_def validateState_def checkValidStates_def findOneArticle_def
      isValid_def isHex_def countBoosted_def getTimestamp_def setTimestamp_def ex_defs oid_simps)

text \<open>
  C2, amended. For an author without the admin tag who owns at most two boosted articles,
  in a store with unique ids: after any finite sequence of \<open>changeState\<close> and
  \<open>changeStates\<close> calls, each made by that author or by another user without the admin
  tag, the author still owns at most two boosted articles.
\<close>

theorem boost_limit_over_calls:
  assumes "\<not> tagAdmin u" and "tagAuthor u"
    and "uniqueIds d"
    and "countBoosted d (uid u) \<le> 2"
    and "list_all (authorOrOther u) cs"
  shows "countBoosted (foldl exec d cs) (uid u) \<le> 2"
  using assms
proof (induction cs arbitrary: d)
  case Nil
  then show ?case by simp
next
  case (Cons c cs)
  then have "uniqueIds (exec d c)" and "countBoosted (exec d c) (uid u) \<le> 2"
    by (simp_all add: exec_uniqueIds exec_boosted_bound)
  with Cons show ?case by simp
qed

text \<open>
  \<open>ana\<close> asks for a third boosted article and is refused, inactivates one in bulk, and
  boosts the third.
\<close>

theorem boost_limit_over_calls_witness:
  "\<not> tagAdmin ana \<and> tagAuthor ana \<and> uniqueIds dbTwoBoosted
   \<and> countBoosted dbTwoBoosted (uid ana) \<le> 2
   \<and> list_all (authorOrOther ana)
        [ChangeState id3 ana ''boosted'' 7, ChangeStates ana (Some [id1]) ''inactivated'',
         ChangeState id3 ana ''boosted'' 8]
   \<and> countBoosted
        (foldl exec dbTwoBoosted
           [ChangeState id3 ana ''boosted'' 7, ChangeStates ana (Some [id1]) ''inactivated'',
            ChangeState id3 ana ''boosted'' 8])
        (uid ana) \<le> 2"
proof -
  have h: "\<not> tagAdmin ana" "tagAuthor ana" "uniqueIds dbTwoBoosted"
    "countBoosted dbTwoBoosted (uid ana) \<le> 2"
    "list_all (authorOrOther ana)
        [ChangeState id3 ana ''boosted'' 7, ChangeStates ana (Some [id1]) ''inactivated'',
         ChangeState id3 ana ''boosted'' 8]"
    by (simp_all add: uniqueIds_def countBoosted_def authorOrOther_def ex_defs oid_simps)
  from h boost_limit_over_calls [OF h] show ?thesis by (intro conjI)
qed

subsection \<open>C3: the boost limit in changeState\<close>

text \<open>
  What \<open>validateState\<close> tests after the same-state check: the caller's author tag and
  the count of her boosted articles, whatever state is asked for.
\<close>

lemma validateState_limit:
  assumes "s \<in> set [''boosted'', ''inactivated'', ''published'']"
    and "findOneArticle d ident = Inr (Some a)"
    and "tagAdmin u \<or> uid u = toString (userId a)"
    and "state a \<noteq> s"
  shows "validateState d ident u s = Inl BoostLimitReached
           \<longleftrightarrow> tagAuthor u \<and> countBoosted d (uid u) > 1"
  using assms by (auto simp: validateState_def checkValidStates_def)

text \<open>
  C3. An author without the admin tag who owns two boosted articles asks for
  \<open>inactivated\<close> on one of them: the call passes the state, not-found, forbidden and
  same-state checks and is refused with the boost-limit error, although the requested
  state is not \<open>boosted\<close>.
\<close>

theorem changeState_inactivated_hits_boost_limit:
  "changeState dbTwoBoosted id1 ana ''inactivated'' 7 = Inl BoostLimitReached"
  by (simp add: changeState_def validateState_def checkValidStates_def findOneArticle_def
      isValid_def isHex_def countBoosted_def ex_defs oid_simps)

subsection \<open>C4 and C6: what a bulk change leaves alone\<close>

text \<open>
  C4. In a store with unique ids, \<open>changeStates\<close> either fails with an error about the
  request as a whole, or succeeds and leaves every article whose state is outside the
  origin states of the wanted state exactly as it was, whether its id was given or not.
\<close>

theorem changeStates_skips_outside_origin:
  assumes "uniqueIds d"
  shows "case changeStates d u articlesId s of
           Inl e \<Rightarrow> requestError e
         | Inr d' \<Rightarrow>
             length (articles d') = length (articles d)
             \<and> (\<forall>i < length (articles d).
                   state (articles d ! i) \<notin> set (originStates s)
                   \<longrightarrow> articles d' ! i = articles d ! i)"
proof (cases "changeStates d u articlesId s")
  case (Inl e)
  then show ?thesis by (simp add: changeStates_error)
next
  case (Inr d')
  then obtain ids where
    chk: "checkArticlesForMultipleChanges d u articlesId s = Inr ids" and
    upd: "articles d' =
           updateMany (\<lambda>a. a_id a \<in> set ids \<and> userId a = ObjectId (uid u))
             (\<lambda>a. a\<lparr>state := s\<rparr>) (articles d)"
    by (rule changeStates_articles)
  have "articles d' ! i = articles d ! i"
    if i: "i < length (articles d)" and out: "state (articles d ! i) \<notin> set (originStates s)"
    for i
  proof -
    let ?a = "articles d ! i"
    have mem: "?a \<in> set (articles d)" using i by simp
    have "a_id ?a \<notin> set ids"
    proof
      assume "a_id ?a \<in> set ids"
      then obtain b where b: "b \<in> set (articles d)" "a_id b = a_id ?a"
          "state b \<in> set (originStates s)"
        using checked_ids_origin [OF chk] by blast
      have "b = ?a"
        using same_id_same_article [OF _ b(1) mem b(2)] assms by (simp add: uniqueIds_def)
      with b(3) out show False by simp
    qed
    then show ?thesis using upd i by (simp add: updateMany_nth_skip)
  qed
  with Inr upd show ?thesis by simp
qed

text \<open>
  \<open>ana\<close> asks to remove a draft and a published article in bulk: the call succeeds, the
  draft is removed, the published one stays as it was.
\<close>

theorem changeStates_skips_outside_origin_witness:
  "uniqueIds dbDraft
   \<and> changeStates dbDraft ana (Some [id1, id2]) ''removed'' =
       Inr (dbDraft\<lparr>articles := [exArticle id1 (uid ana) ''removed'' None,
                                  exArticle id2 (uid ana) ''published'' None]\<rparr>)
   \<and> state (articles dbDraft ! 1) \<notin> set (originStates ''removed'')
   \<and> exArticle id2 (uid ana) ''published'' None = articles dbDraft ! 1"
proof -
  have u: "uniqueIds dbDraft"
    by (simp add: uniqueIds_def ex_defs oid_simps)
  have r: "changeStates dbDraft ana (Some [id1, id2]) ''removed'' =
       Inr (dbDraft\<lparr>articles := [exArticle id1 (uid ana) ''removed'' None,
                                  exArticle id2 (uid ana) ''published'' None]\<rparr>)"
    by (simp add: changeStates_def checkArticlesForMultipleChanges_def checkValidStates_def
        isValid_def isHex_def articlesToChange_def updateMany_def ex_defs oid_simps)
  have o: "state (articles dbDraft ! 1) \<notin> set (originStates ''removed'')"
    by (simp add: originStates_def ex_defs oid_simps)
  have l: "(1::nat) < length (articles dbDraft)"
    by (simp add: ex_defs oid_simps)
  have "\<forall>i < length (articles dbDraft).
          state (articles dbDraft ! i) \<notin> set (originStates ''removed'')
          \<longrightarrow> [exArticle id1 (uid ana) ''removed'' None,
                exArticle id2 (uid ana) ''published'' None] ! i = articles dbDraft ! i"
    using changeStates_skips_outside_origin
         [OF u, where u = ana and articlesId = "Some [id1, id2]" and s = "''removed''"]
    unfolding r by simp
  with o l have "[exArticle id1 (uid ana) ''removed'' None,
                  exArticle id2 (uid ana) ''published'' None] ! 1 = articles dbDraft ! 1"
    by blast
  then have "exArticle id2 (uid ana) ''published'' None = articles dbDraft ! 1"
    by simp
  with u r o show ?thesis by (intro conjI)
qed

text \<open>
  C6. A successful \<open>changeStates\<close> leaves every article whose \<open>userId\<close> is not the
  caller's exactly as it was, for an admin as for anyone else.
\<close>

theorem changeStates_only_own_articles:
  assumes "changeStates d u articlesId s = Inr d'"
  shows "length (articles d') = length (articles d)
         \<and> (\<forall>i < length (articles d).
               userId (articles d ! i) \<noteq> ObjectId (uid u)
               \<longrightarrow> articles d' ! i = articles d ! i)"
proof -
  from assms obtain ids where
    upd: "articles d' =
           updateMany (\<lambda>a. a_id a \<in> set ids \<and> userId a = ObjectId (uid u))
             (\<lambda>a. a\<lparr>state := s\<rparr>) (articles d)"
    by (rule changeStates_articles)
  then show ?thesis by (simp add: updateMany_nth_skip)
qed

text \<open>
  The admin \<open>root\<close> asks to inactivate an article of his own and one of \<open>ana\<close>: the
  call succeeds, his article is inactivated, hers stays as it was.
\<close>

theorem changeStates_only_own_articles_witness:
  "tagAdmin root
   \<and> changeStates dbMixed root (Some [id1, id2]) ''inactivated'' =
       Inr (dbMixed\<lparr>articles := [exArticle id1 (uid root) ''inactivated'' None,
                                  exArticle id2 (uid ana) ''published'' None]\<rparr>)
   \<and> userId (articles dbMixed ! 1) \<noteq> ObjectId (uid root)
   \<and> state (articles dbMixed ! 1) \<in> set (originStates ''inactivated'')
   \<and> exArticle id2 (uid ana) ''published'' None = articles dbMixed ! 1"
proof -
  have r: "changeStates dbMixed root (Some [id1, id2]) ''inactivated'' =
       Inr (dbMixed\<lparr>articles := [exArticle id1 (uid root) ''inactivated'' None,
                                  exArticle id2 (uid ana) ''published'' None]\<rparr>)"
    by (simp add: changeStates_def checkArticlesForMultipleChanges_def checkValidStates_def
        isValid_def isHex_def articlesToChange_def updateMany_def ex_defs oid_simps)
  have o: "tagAdmin root" "userId (articles dbMixed ! 1) \<noteq> ObjectId (uid root)"
    "state (articles dbMixed ! 1) \<in> set (originStates ''inactivated'')"
    by (simp_all add: originStates_def ex_defs oid_simps)
  have l: "(1::nat) < length (articles dbMixed)"
    by (simp add: ex_defs oid_simps)
  have "\<forall>i < length (articles dbMixed).
          userId (articles dbMixed ! i) \<noteq> ObjectId (uid root)
          \<longrightarrow> [exArticle id1 (uid root) ''inactivated'' None,
                exArticle id2 (uid ana) ''published'' None] ! i = articles dbMixed ! i"
    using changeStates_only_own_articles [OF r] by simp
  with o(2) l have "[exArticle id1 (uid root) ''inactivated'' None,
                     exArticle id2 (uid ana) ''published'' None] ! 1 = articles dbMixed ! 1"
    by blast
  then have "exArticle id2 (uid ana) ''published'' None = articles dbMixed ! 1"
    by simp
  with r o show ?thesis by (intro conjI)
qed

subsection \<open>C5: save on an id no article has\<close>

text \<open>Whatever the request, \<open>save\<close> never answers with the not-found error.\<close>

lemma save_never_not_found: "save d ident u p \<noteq> Inl ArticleNotFound"
  by (auto simp: save_def validateFields_def findOneArticle_def checkTheme_def checkCategory_def
      split: sum.splits option.splits if_splits)

text \<open>
  C5. \<open>save\<close> on an id no article has does not answer with the not-found error of the
  sibling handlers (\<open>ArticleNotFound\<close>): \<open>validateFields\<close> dereferences the missing
  article and the call ends in a TypeError. Evaluated for a well-formed id, an empty
  collection and an empty body.
\<close>

theorem save_missing_article_TypeError:
  "save dbEmpty id1 ana noPatch = Inl TypeError"
  by (simp add: save_def validateFields_def findOneArticle_def isValid_def isHex_def ex_defs oid_simps)

section \<open>Theorems on the comment settings\<close>

lemma orNumber_given: "orNumber v b = suppliedOr (givenNumber v) b"
  by (auto simp: orNumber_def suppliedOr_def givenNumber_def split: option.splits)

lemma orString_given: "orString v b = suppliedOr (givenString v) b"
  by (auto simp: orString_def suppliedOr_def givenString_def split: option.splits)

lemma verifyUser_settings_update:
  "verifyUser (d\<lparr>comment_settings := rows\<rparr>) u = verifyUser d u"
  by (simp add: verifyUser_def)

lemma boolColumn_nonzero: "(boolColumn b \<noteq> 0) = b"
  by (simp add: boolColumn_def)

text \<open>
  A user whose \<open>_id\<close> is spelled in upper case is found and then refused: the found
  document's \<open>id\<close> is the lower-case text.
\<close>

lemma verifyUser_upper_case:
  "verifyUser dbSettings (ana\<lparr>uid := ''5F00000000000000000000A1''\<rparr>) = Some Unauthorized"
  by (simp add: verifyUser_def isValid_def isHex_def upper_case_cast ex_defs oid_simps)

text \<open>
  C8, as stated, fails. The handler accepts a body with \<open>limit\<close> 0 and \<open>type\<close> the
  empty string (only truthy enumerations are tested, \<open>limit\<close> never); the merge takes
  both as not supplied, and \<open>get\<close> answers with the earlier \<open>limit\<close> 10 and the earlier
  \<open>type\<close>.
\<close>

theorem save_then_get_counterexample:
  "selectSettings dbSettings ana = Some anaSettings
   \<and> s_limit zeroPatch = Some 0 \<and> s_type zeroPatch = Some []
   \<and> save_settings anaSettings dbSettings ana zeroPatch 1000
       = Inr (dbSettings, viewOf anaSettings (Some (1000 + thirtyDays)))
   \<and> get_settings dbSettings ana None 2000 = Inr (Settings (viewOf anaSettings None))
   \<and> v_limit (viewOf anaSettings None) = 10
   \<and> v_type (viewOf anaSettings None) = ''all''"
  by (simp add: save_settings_def get_settings_def verifyEnumFields_def notOneOf_def
      verifyUser_def selectSettings_def isValid_def isHex_def updateMany_def writeColumns_def
      updatedSettings_def orNumber_def orString_def boolColumn_def viewOf_def
      ex_defs oid_simps)

text \<open>
  C8, amended. For a user who passes \<open>verifyUser\<close> and has a settings row, and every
  body \<open>verifyEnumFields\<close> accepts: \<open>save\<close> succeeds, and a \<open>get\<close> after it (without a
  cache header still in force) answers with the settings in which each of \<open>limit\<close>,
  \<open>type\<close>, \<open>order\<close>, \<open>answersType\<close> and \<open>answersOrder\<close> is the value the body
  supplied, where 0 and the empty string count as not supplied, or else the earlier
  value; \<open>notify\<close> is the boolean the body supplied, and otherwise the earlier \<open>limit\<close>
  read as a boolean, not the earlier \<open>notify\<close>.
\<close>

theorem save_then_get:
  assumes cur: "selectSettings d u = Some cur"
    and usr: "verifyUser d u = None"
    and enum: "verifyEnumFields p = None"
    and ttl: "case ttl of None \<Rightarrow> True | Some t \<Rightarrow> t < later"
  shows "\<exists>d' out v.
           save_settings dflt d u p now = Inr (d', out)
           \<and> get_settings d' u ttl later = Inr (Settings v)
           \<and> v_limit v = suppliedOr (givenNumber (s_limit p)) (r_limit cur)
           \<and> v_type v = suppliedOr (givenString (s_type p)) (r_type cur)
           \<and> v_order v = suppliedOr (givenString (s_order p)) (r_order cur)
           \<and> v_answersType v = suppliedOr (givenString (s_answersType p)) (r_answers_type cur)
           \<and> v_answersOrder v
               = suppliedOr (givenString (s_answersOrder p)) (r_answers_order cur)
           \<and> v_notify v = (case s_notify p of Some b \<Rightarrow> b | None \<Rightarrow> r_limit cur \<noteq> 0)"
proof -
  define new where "new = updatedSettings p cur"
  define d' where
    "d' = d\<lparr>comment_settings :=
              updateMany (\<lambda>r. r_userId r = uid u) (writeColumns new) (comment_settings d)\<rparr>"
  have sel: "selectSettings d' u = Some (writeColumns new cur)"
    using cur unfolding selectSettings_def d'_def
    by (simp add: find_updateMany writeColumns_def)
  have sv: "save_settings dflt d u p now =
              Inr (d', viewOf (writeColumns new cur) (Some (now + thirtyDays)))"
    using cur usr sel enum
    by (simp add: save_settings_def Let_def d'_def new_def)
  have fresh: "\<not> (case ttl of None \<Rightarrow> False | Some t \<Rightarrow> t \<ge> later)"
    using ttl by (cases ttl) auto
  have gt: "get_settings d' u ttl later = Inr (Settings (viewOf (writeColumns new cur) None))"
    using fresh usr sel by (simp add: get_settings_def d'_def verifyUser_settings_update)
  have nt: "(r_notify new \<noteq> 0) = (case s_notify p of Some b \<Rightarrow> b | None \<Rightarrow> r_limit cur \<noteq> 0)"
    by (simp add: new_def updatedSettings_def boolColumn_nonzero split: option.splits)
  show ?thesis
    using sv gt nt
    by (simp add: viewOf_def writeColumns_def new_def updatedSettings_def
        orNumber_given orString_given)
qed

text \<open>
  \<open>ana\<close>, with ten comments a page and no notification, saves a new type and order: she
  reads them back, with the page size kept and \<open>notify\<close> turned on by the page size.
\<close>

theorem save_then_get_witness:
  "selectSettings dbSettings ana = Some anaSettings
   \<and> verifyUser dbSettings ana = None
   \<and> verifyEnumFields exPatch = None
   \<and> (\<exists>d' out v.
         save_settings anaSettings dbSettings ana exPatch 1000 = Inr (d', out)
         \<and> get_settings d' ana None 2000 = Inr (Settings v)
         \<and> v_limit v = 10 \<and> v_type v = ''not-readed'' \<and> v_order v = ''asc''
         \<and> v_answersType v = ''all'' \<and> v_answersOrder v = ''desc'' \<and> v_notify v = True)"
proof -
  have h: "selectSettings dbSettings ana = Some anaSettings"
    "verifyUser dbSettings ana = None" "verifyEnumFields exPatch = None"
    "case None :: time option of None \<Rightarrow> True | Some t \<Rightarrow> t < 2000"
    by (simp_all add: selectSettings_def verifyUser_def isValid_def isHex_def
        verifyEnumFields_def notOneOf_def typeValues_def orderValues_def ex_defs oid_simps)
  have v: "suppliedOr (givenNumber (s_limit exPatch)) (r_limit anaSettings) = 10"
    "suppliedOr (givenString (s_type exPatch)) (r_type anaSettings) = ''not-readed''"
    "suppliedOr (givenString (s_order exPatch)) (r_order anaSettings) = ''asc''"
    "suppliedOr (givenString (s_answersType exPatch)) (r_answers_type anaSettings) = ''all''"
    "suppliedOr (givenString (s_answersOrder exPatch)) (r_answers_order anaSettings) = ''desc''"
    "(case s_notify exPatch of Some b \<Rightarrow> b | None \<Rightarrow> r_limit anaSettings \<noteq> 0) = True"
    by (simp_all add: suppliedOr_def givenNumber_def givenString_def ex_defs)
  from save_then_get [OF h, of anaSettings 1000]
  have "\<exists>d' out v.
         save_settings anaSettings dbSettings ana exPatch 1000 = Inr (d', out)
         \<and> get_settings d' ana None 2000 = Inr (Settings v)
         \<and> v_limit v = 10 \<and> v_type v = ''not-readed'' \<and> v_order v = ''asc''
         \<and> v_answersType v = ''all'' \<and> v_answersOrder v = ''desc'' \<and> v_notify v = True"
    unfolding v .
  with h(1,2,3) show ?thesis by (intro conjI)
qed

section \<open>Theorems on the comments module\<close>

subsection \<open>C7: the three listings\<close>

lemma paginate_set: "paginate page limit xs = Inr ys \<Longrightarrow> set ys \<subseteq> set xs"
  by (auto simp: paginate_def split: if_splits dest: in_set_takeD in_set_dropD)

lemma paginate_whole:
  "int (length xs) \<le> limit \<Longrightarrow> 0 < limit \<Longrightarrow> paginate 1 limit xs = Inr xs"
  by (simp add: paginate_def)

lemma set_sortNewestFirst [simp]: "set (sortNewestFirst cs) = set cs"
  by (simp add: sortNewestFirst_def)

lemma length_sortNewestFirst [simp]: "length (sortNewestFirst cs) = length cs"
  by (simp add: sortNewestFirst_def)

text \<open>From the first page on and with a positive limit, the three listings answer.\<close>

lemma paginate_answers:
  assumes "1 \<le> page" and "0 < limit"
  shows "\<exists>ys. paginate page limit xs = Inr ys"
proof -
  from assms have "0 \<le> (page - 1) * limit" by simp
  then have "0 \<le> page * limit - limit" by (simp add: algebra_simps)
  with assms(2) show ?thesis by (simp add: paginate_def)
qed

lemma listings_answer:
  assumes "1 \<le> page" and "0 < limit"
  shows "(\<exists>r. getAllComments d u page limit = Inr r)
         \<and> (\<exists>r. getNotReadedComments d u page limit = Inr r)
         \<and> (\<exists>r. getOnlyReadedComments d u page limit = Inr r)"
proof -
  have "\<exists>ys. paginate page limit xs = Inr ys" for xs :: "comment list"
    using assms by (rule paginate_answers)
  then show ?thesis
    unfolding getAllComments_def getNotReadedComments_def getOnlyReadedComments_def Let_def
    by (metis old.sum.simps(6))
qed

text \<open>With unique ids, a lookup by id finds the one document that has it.\<close>

lemma find_by_key:
  assumes "distinct (map f xs)"
  shows "find (\<lambda>x. f x = k) xs = Some a \<longleftrightarrow> a \<in> set xs \<and> f a = k"
  using assms
proof (induction xs)
  case Nil
  then show ?case by simp
next
  case (Cons x xs)
  then show ?case by (cases "f x = k") (auto simp: image_iff)
qed

lemma find_key_exists:
  "list_ex (\<lambda>x. f x = k) xs \<Longrightarrow> \<exists>x. find (\<lambda>x. f x = k) xs = Some x \<and> f x = k"
  by (induction xs) auto

lemma find_key_value: "find (\<lambda>x. f x = k) xs = Some x \<Longrightarrow> f x = k"
  by (induction xs) (auto split: if_splits)

text \<open>
  For a known user and unique article ids, the pipelines' condition on the author is
  that the comment's article has the user as its author.
\<close>

lemma authorMatches_iff:
  assumes u: "uniqueIds d" and k: "knownUser d u"
  shows "authorMatches d u c \<longleftrightarrow>
           list_ex (\<lambda>a. a_id a = articleId c \<and> author a = Some (ObjectId (uid u))) (articles d)"
proof
  assume "authorMatches d u c"
  with k obtain x where x: "joinedAuthor d c = Some x" "ud_id x = ObjectId (uid u)"
    by (auto simp: authorMatches_def knownUser_def)
  then obtain a w where a: "joinedArticle d c = Some a" "author a = Some w"
      and f: "find (\<lambda>x. ud_id x = w) (users d) = Some x"
    by (auto simp: joinedAuthor_def split: option.splits)
  from f have "ud_id x = w" by (rule find_key_value)
  with x a have "author a = Some (ObjectId (uid u))" by simp
  moreover from a(1) u have "a \<in> set (articles d) \<and> a_id a = articleId c"
    by (simp add: joinedArticle_def uniqueIds_def find_by_key)
  ultimately show "list_ex (\<lambda>a. a_id a = articleId c \<and> author a = Some (ObjectId (uid u)))
                     (articles d)"
    by (auto simp: list_ex_iff)
next
  assume "list_ex (\<lambda>a. a_id a = articleId c \<and> author a = Some (ObjectId (uid u))) (articles d)"
  then obtain a where a: "a \<in> set (articles d)" "a_id a = articleId c"
      "author a = Some (ObjectId (uid u))"
    by (auto simp: list_ex_iff)
  with u have ja: "joinedArticle d c = Some a"
    by (simp add: joinedArticle_def uniqueIds_def find_by_key)
  from k obtain x where "find (\<lambda>x. ud_id x = ObjectId (uid u)) (users d) = Some x"
      "ud_id x = ObjectId (uid u)"
    using find_key_exists [of ud_id "ObjectId (uid u)" "users d"]
    by (auto simp: knownUser_def)
  with ja a(3) k show "authorMatches d u c"
    by (simp add: authorMatches_def joinedAuthor_def knownUser_def)
qed

lemma joinedAnswerOfNull_iff:
  assumes "answersResolve d" and "c \<in> set (comments d)"
  shows "joinedAnswerOfNull d c \<longleftrightarrow> answerOf c = None"
proof (cases "answerOf c")
  case None
  then show ?thesis by (simp add: joinedAnswerOfNull_def)
next
  case (Some w)
  with assms have "list_ex (\<lambda>x. cm_id x = w) (comments d)"
    by (auto simp: answersResolve_def list_all_iff)
  then obtain x where "find (\<lambda>x. cm_id x = w) (comments d) = Some x"
    using find_key_exists [of cm_id w "comments d"] by blast
  with Some show ?thesis by (simp add: joinedAnswerOfNull_def)
qed

text \<open>
  C7, as stated, fails page by page. On \<open>dbListing\<close> with one comment a page, the first
  page of \<open>all\<close> holds the read comment alone, while the first pages of \<open>not-readed\<close>
  and \<open>only-readed\<close> hold the unread and the read one.
\<close>

theorem listing_partitions_counterexample:
  "getAllComments dbListing ana 1 1 = Inr ([commentOn cid2 id1 None (Some 150) 120], 2)
   \<and> getNotReadedComments dbListing ana 1 1 = Inr ([commentOn cid1 id1 None None 100], 1)
   \<and> getOnlyReadedComments dbListing ana 1 1
       = Inr ([commentOn cid2 id1 None (Some 150) 120], 1)
   \<and> set [commentOn cid2 id1 None (Some 150) 120]
       \<noteq> set [commentOn cid1 id1 None None 100] \<union> set [commentOn cid2 id1 None (Some 150) 120]"
  by (simp add: getAllComments_def getNotReadedComments_def getOnlyReadedComments_def
      paginate_def sortNewestFirst_def authorMatches_def joinedAuthor_def joinedArticle_def
      answerOfNull_def joinedAnswerOfNull_def isValid_def isHex_def ex_defs oid_simps)

text \<open>
  C7, amended. When the three listings answer for the same user, page and limit, the
  count of \<open>all\<close> is the sum of the counts of \<open>not-readed\<close> and \<open>only-readed\<close>, and no
  comment is listed by both of these. If moreover article ids are unique, the user is
  known and every answer names a stored comment, then the three counts are the numbers
  of the user's root comments, of those with \<open>readedAt\<close> null and of those with
  \<open>readedAt\<close> set; every comment listed belongs to the partition asked for; and when the
  first page is long enough for the count of \<open>all\<close>, the three listings hold exactly
  the three partitions, so that \<open>all\<close> lists what \<open>not-readed\<close> and \<open>only-readed\<close> list
  together.
\<close>

theorem listing_partitions:
  assumes al: "getAllComments d u page limit = Inr (al, nAll)"
    and nr: "getNotReadedComments d u page limit = Inr (nr, nNr)"
    and rd: "getOnlyReadedComments d u page limit = Inr (rd, nRd)"
  shows "nAll = nNr + nRd \<and> set nr \<inter> set rd = {}
         \<and> (uniqueIds d \<and> knownUser d u \<and> answersResolve d \<longrightarrow>
               nAll = length (filter (rootCommentOf d u) (comments d))
             \<and> nNr = length (filter (\<lambda>c. rootCommentOf d u c \<and> readedAt c = None) (comments d))
             \<and> nRd = length (filter (\<lambda>c. rootCommentOf d u c \<and> readedAt c \<noteq> None) (comments d))
             \<and> set al \<subseteq> {c \<in> set (comments d). rootCommentOf d u c}
             \<and> set nr \<subseteq> {c \<in> set (comments d). rootCommentOf d u c \<and> readedAt c = None}
             \<and> set rd \<subseteq> {c \<in> set (comments d). rootCommentOf d u c \<and> readedAt c \<noteq> None}
             \<and> (page = 1 \<and> int nAll \<le> limit \<longrightarrow>
                   set al = {c \<in> set (comments d). rootCommentOf d u c}
                 \<and> set nr = {c \<in> set (comments d). rootCommentOf d u c \<and> readedAt c = None}
                 \<and> set rd = {c \<in> set (comments d). rootCommentOf d u c \<and> readedAt c \<noteq> None}
                 \<and> set al = set nr \<union> set rd))"
proof -
  let ?A = "\<lambda>c. authorMatches d u c \<and> answerOfNull c"
  let ?J = "\<lambda>c. authorMatches d u c \<and> joinedAnswerOfNull d c"
  let ?all = "sortNewestFirst (filter ?J (comments d))"
  let ?nr = "sortNewestFirst (filter (\<lambda>c. ?J c \<and> readedAt c = None) (comments d))"
  let ?rd = "sortNewestFirst (filter (\<lambda>c. ?J c \<and> readedAt c \<noteq> None) (comments d))"
  from al have pal: "paginate page limit ?all = Inr al"
    and cal: "nAll = length (filter ?A (comments d))"
    by (auto simp: getAllComments_def Let_def split: sum.splits)
  from nr have pnr: "paginate page limit ?nr = Inr nr"
    and cnr: "nNr = length (filter (\<lambda>c. ?A c \<and> readedAt c = None) (comments d))"
    by (auto simp: getNotReadedComments_def Let_def conj_commute conj_left_commute
        split: sum.splits)
  from rd have prd: "paginate page limit ?rd = Inr rd"
    and crd: "nRd = length (filter (\<lambda>c. ?A c \<and> readedAt c \<noteq> None) (comments d))"
    by (auto simp: getOnlyReadedComments_def Let_def conj_commute conj_left_commute
        split: sum.splits)
  have counts: "nAll = nNr + nRd"
    unfolding cal cnr crd by (rule count_split)
  have snr: "set nr \<subseteq> set ?nr" using pnr by (rule paginate_set)
  have srd: "set rd \<subseteq> set ?rd" using prd by (rule paginate_set)
  have sal: "set al \<subseteq> set ?all" using pal by (rule paginate_set)
  have "\<And>c. c \<in> set nr \<Longrightarrow> readedAt c = None" using snr by auto
  moreover have "\<And>c. c \<in> set rd \<Longrightarrow> readedAt c \<noteq> None" using srd by auto
  ultimately have disj: "set nr \<inter> set rd = {}" by blast
  have exact:
      "nAll = length (filter (rootCommentOf d u) (comments d))
     \<and> nNr = length (filter (\<lambda>c. rootCommentOf d u c \<and> readedAt c = None) (comments d))
     \<and> nRd = length (filter (\<lambda>c. rootCommentOf d u c \<and> readedAt c \<noteq> None) (comments d))
     \<and> set al \<subseteq> {c \<in> set (comments d). rootCommentOf d u c}
     \<and> set nr \<subseteq> {c \<in> set (comments d). rootCommentOf d u c \<and> readedAt c = None}
     \<and> set rd \<subseteq> {c \<in> set (comments d). rootCommentOf d u c \<and> readedAt c \<noteq> None}
     \<and> (page = 1 \<and> int nAll \<le> limit \<longrightarrow>
           set al = {c \<in> set (comments d). rootCommentOf d u c}
         \<and> set nr = {c \<in> set (comments d). rootCommentOf d u c \<and> readedAt c = None}
         \<and> set rd = {c \<in> set (comments d). rootCommentOf d u c \<and> readedAt c \<noteq> None}
         \<and> set al = set nr \<union> set rd)"
    if wf: "uniqueIds d" "knownUser d u" "answersResolve d"
  proof -
    have A: "?A c \<longleftrightarrow> rootCommentOf d u c" for c
      using authorMatches_iff [OF wf(1,2), of c]
      by (auto simp: rootCommentOf_def answerOfNull_def)
    have J: "?J c \<longleftrightarrow> rootCommentOf d u c" if "c \<in> set (comments d)" for c
      using authorMatches_iff [OF wf(1,2), of c] joinedAnswerOfNull_iff [OF wf(3) that]
      by (auto simp: rootCommentOf_def)
    have fall: "filter ?J (comments d) = filter (rootCommentOf d u) (comments d)"
      by (rule filter_cong) (simp_all add: J)
    have fnr: "filter (\<lambda>c. ?J c \<and> readedAt c = None) (comments d)
                 = filter (\<lambda>c. rootCommentOf d u c \<and> readedAt c = None) (comments d)"
      by (rule filter_cong) (simp_all add: J)
    have frd: "filter (\<lambda>c. ?J c \<and> readedAt c \<noteq> None) (comments d)
                 = filter (\<lambda>c. rootCommentOf d u c \<and> readedAt c \<noteq> None) (comments d)"
      by (rule filter_cong) (simp_all add: J)
    have n1: "nAll = length (filter (rootCommentOf d u) (comments d))"
      unfolding cal by (simp add: A)
    have n2: "nNr = length (filter (\<lambda>c. rootCommentOf d u c \<and> readedAt c = None) (comments d))"
      unfolding cnr by (simp add: A)
    have n3: "nRd = length (filter (\<lambda>c. rootCommentOf d u c \<and> readedAt c \<noteq> None) (comments d))"
      unfolding crd by (simp add: A)
    have s1: "set al \<subseteq> {c \<in> set (comments d). rootCommentOf d u c}"
      using sal unfolding fall by auto
    have s2: "set nr \<subseteq> {c \<in> set (comments d). rootCommentOf d u c \<and> readedAt c = None}"
      using snr unfolding fnr by auto
    have s3: "set rd \<subseteq> {c \<in> set (comments d). rootCommentOf d u c \<and> readedAt c \<noteq> None}"
      using srd unfolding frd by auto
    have whole: "set al = {c \<in> set (comments d). rootCommentOf d u c}
         \<and> set nr = {c \<in> set (comments d). rootCommentOf d u c \<and> readedAt c = None}
         \<and> set rd = {c \<in> set (comments d). rootCommentOf d u c \<and> readedAt c \<noteq> None}
         \<and> set al = set nr \<union> set rd"
      if p: "page = 1" and fits: "int nAll \<le> limit"
    proof -
      from pal have pos: "0 < limit" by (auto simp: paginate_def split: if_splits)
      have lall: "int (length ?all) \<le> limit"
        using fits unfolding n1 fall by simp
      have "length (filter (\<lambda>c. rootCommentOf d u c \<and> readedAt c = None) (comments d))
              \<le> nAll"
        using counts n2 by simp
      with fits have lnr: "int (length ?nr) \<le> limit"
        unfolding fnr by simp
      have "length (filter (\<lambda>c. rootCommentOf d u c \<and> readedAt c \<noteq> None) (comments d))
              \<le> nAll"
        using counts n3 by simp
      with fits have lrd: "int (length ?rd) \<le> limit"
        unfolding frd by simp
      from pal p paginate_whole [OF lall pos] have "al = ?all" by simp
      then have e1: "set al = {c \<in> set (comments d). rootCommentOf d u c}"
        unfolding fall by auto
      from pnr p paginate_whole [OF lnr pos] have "nr = ?nr" by simp
      then have e2: "set nr = {c \<in> set (comments d). rootCommentOf d u c \<and> readedAt c = None}"
        unfolding fnr by auto
      from prd p paginate_whole [OF lrd pos] have "rd = ?rd" by simp
      then have e3: "set rd = {c \<in> set (comments d). rootCommentOf d u c \<and> readedAt c \<noteq> None}"
        unfolding frd by auto
      from e1 e2 e3 have "set al = set nr \<union> set rd" by blast
      with e1 e2 e3 show ?thesis by (intro conjI)
    qed
    from n1 n2 n3 s1 s2 s3 whole show ?thesis by (intro conjI impI) blast+
  qed
  from counts disj exact show ?thesis by (intro conjI impI) blast+
qed

text \<open>
  The listings of \<open>ana\<close> over \<open>dbListing\<close>, first page of two: her two root comments in
  all, one unread, one read; her answer and the comment on the article of \<open>root\<close> are in
  none of them.
\<close>

theorem listing_partitions_witness:
  "getAllComments dbListing ana 1 2 =
     Inr ([commentOn cid2 id1 None (Some 150) 120, commentOn cid1 id1 None None 100], 2)
   \<and> getNotReadedComments dbListing ana 1 2 = Inr ([commentOn cid1 id1 None None 100], 1)
   \<and> getOnlyReadedComments dbListing ana 1 2
       = Inr ([commentOn cid2 id1 None (Some 150) 120], 1)
   \<and> uniqueIds dbListing \<and> knownUser dbListing ana \<and> answersResolve dbListing
   \<and> length (filter (rootCommentOf dbListing ana) (comments dbListing)) = 2
   \<and> {c \<in> set (comments dbListing). rootCommentOf dbListing ana c}
       = set [commentOn cid2 id1 None (Some 150) 120, commentOn cid1 id1 None None 100]
   \<and> set [commentOn cid2 id1 None (Some 150) 120, commentOn cid1 id1 None None 100]
       = set [commentOn cid1 id1 None None 100] \<union> set [commentOn cid2 id1 None (Some 150) 120]"
proof -
  have a: "getAllComments dbListing ana 1 2 =
     Inr ([commentOn cid2 id1 None (Some 150) 120, commentOn cid1 id1 None None 100], 2)"
    by (simp add: getAllComments_def paginate_def sortNewestFirst_def authorMatches_def
        joinedAuthor_def joinedArticle_def answerOfNull_def joinedAnswerOfNull_def
        isValid_def isHex_def ex_defs oid_simps)
  have n: "getNotReadedComments dbListing ana 1 2 = Inr ([commentOn cid1 id1 None None 100], 1)"
    by (simp add: getNotReadedComments_def paginate_def sortNewestFirst_def authorMatches_def
        joinedAuthor_def joinedArticle_def answerOfNull_def joinedAnswerOfNull_def
        isValid_def isHex_def ex_defs oid_simps)
  have r: "getOnlyReadedComments dbListing ana 1 2 =
             Inr ([commentOn cid2 id1 None (Some 150) 120], 1)"
    by (simp add: getOnlyReadedComments_def paginate_def sortNewestFirst_def authorMatches_def
        joinedAuthor_def joinedArticle_def answerOfNull_def joinedAnswerOfNull_def
        isValid_def isHex_def ex_defs oid_simps)
  have w: "uniqueIds dbListing" "knownUser dbListing ana" "answersResolve dbListing"
    by (simp_all add: uniqueIds_def knownUser_def answersResolve_def isValid_def isHex_def
        ex_defs oid_simps)
  have p: "(1::int) = 1 \<and> int 2 \<le> 2" by simp
  from listing_partitions [OF a n r] w p
  have "2 = length (filter (rootCommentOf dbListing ana) (comments dbListing))"
    and "set [commentOn cid2 id1 None (Some 150) 120, commentOn cid1 id1 None None 100]
           = {c \<in> set (comments dbListing). rootCommentOf dbListing ana c}"
    and "set [commentOn cid2 id1 None (Some 150) 120, commentOn cid1 id1 None None 100]
           = set [commentOn cid1 id1 None None 100]
             \<union> set [commentOn cid2 id1 None (Some 150) 120]"
    by blast+
  with a n r w show ?thesis by (intro conjI) simp_all
qed

subsection \<open>C10: what answerComment sends back\<close>

text \<open>
  C10. Whenever \<open>answerComment\<close> succeeds, the new answer has been added to the
  comments, with the given message and \<open>answerOf\<close> the root's id, and the body sent
  back is empty.
\<close>

theorem answerComment_sends_no_body:
  assumes "answerComment d ident u answer notify fresh now = Inr (d', mails, body)"
  shows "body = None
         \<and> (\<exists>c. comments d' = comments d @ [c] \<and> cm_id c = fresh
                \<and> answerOf c = Some (ObjectId ident) \<and> message c = answer)"
  using assms
  by (auto simp: answerComment_def afterSave_def Let_def
      split: option.splits sum.splits prod.splits if_splits)

text \<open>\<open>ana\<close> answers the first root comment of \<open>dbComments\<close> and asks for the mail.\<close>

theorem answerComment_sends_no_body_witness:
  "\<exists>d' mails.
     answerComment dbComments cid1 ana ''ok'' (Some ''yes'') (ObjectId cid4) 200
       = Inr (d', mails, None)
     \<and> length mails = 1
     \<and> (\<exists>c. comments d' = comments dbComments @ [c] \<and> cm_id c = ObjectId cid4
            \<and> answerOf c = Some (ObjectId cid1) \<and> message c = ''ok'')"
proof -
  obtain d' mails body where
    r: "answerComment dbComments cid1 ana ''ok'' (Some ''yes'') (ObjectId cid4) 200
          = Inr (d', mails, body)" and m: "length mails = 1"
    by (simp add: answerComment_def afterSave_def validateLength_def orString_def getOne_def
        joinedArticle_def joinedAnswerOfNull_def isValid_def isHex_def Let_def ex_defs oid_simps)
  from answerComment_sends_no_body [OF r] r m show ?thesis by blast
qed

subsection \<open>C9: the rows commentsJob inserts\<close>

text \<open>Division steps by one exactly at the multiples.\<close>

lemma div_step:
  fixes y k :: int
  assumes "0 < k"
  shows "y div k - (y - 1) div k = (if y mod k = 0 then 1 else 0)"
proof (cases "y mod k = 0")
  case True
  have "k * (y div k) + y mod k = y" by (rule mult_div_mod_eq)
  with True have "y - 1 = k * (y div k - 1) + (k - 1)" by (simp add: algebra_simps)
  then have "(y - 1) div k = y div k - 1"
    by (rule int_div_pos_eq) (use assms in simp_all)
  with True show ?thesis by simp
next
  case False
  have "0 \<le> y mod k" "y mod k < k" using assms by simp_all
  with False have r: "0 \<le> y mod k - 1" "y mod k - 1 < k" by simp_all
  have "k * (y div k) + y mod k = y" by (rule mult_div_mod_eq)
  then have "y - 1 = k * (y div k) + (y mod k - 1)" by simp
  then have "(y - 1) div k = y div k" using r by (rule int_div_pos_eq)
  with False show ?thesis by simp
qed

text \<open>The day number of the civil-calendar rule, with the years before in closed form.\<close>

lemma era_form:
  "(n div 400) * 146097 + ((n - n div 400 * 400) * 365 + (n - n div 400 * 400) div 4
      - (n - n div 400 * 400) div 100) = daysBefore n"
proof -
  define q where "q = n div 400"
  define r where "r = n mod 400"
  have n: "n = r + 400 * q" unfolding q_def r_def by simp
  have r: "n - q * 400 = r" using n by simp
  have "n div 4 = (r + 4 * (100 * q)) div 4" using n by simp
  also have "\<dots> = 100 * q + r div 4" by (rule div_mult_self2) simp
  finally have d4: "n div 4 = 100 * q + r div 4" .
  have "n div 100 = (r + 100 * (4 * q)) div 100" using n by simp
  also have "\<dots> = 4 * q + r div 100" by (rule div_mult_self2) simp
  finally have d100: "n div 100 = 4 * q + r div 100" .
  have "q * 146097 + (r * 365 + r div 4 - r div 100)
          = 365 * (r + 400 * q) + (100 * q + r div 4) - (4 * q + r div 100) + q"
    by (simp add: algebra_simps)
  then show ?thesis
    unfolding daysBefore_def d4 d100 q_def [symmetric] r
    using n by simp
qed

lemma daysBefore_step: "daysBefore y - daysBefore (y - 1) = (if leapYear y then 366 else 365)"
proof -
  define a where "a = (if y mod 4 = 0 then 1 else 0 :: int)"
  define b where "b = (if y mod 100 = 0 then 1 else 0 :: int)"
  define c where "c = (if y mod 400 = 0 then 1 else 0 :: int)"
  have s: "y div 4 - (y - 1) div 4 = a" "y div 100 - (y - 1) div 100 = b"
    "y div 400 - (y - 1) div 400 = c"
    unfolding a_def b_def c_def by (rule div_step, simp)+
  have "daysBefore y - daysBefore (y - 1)
          = 365 + (y div 4 - (y - 1) div 4) - (y div 100 - (y - 1) div 100)
            + (y div 400 - (y - 1) div 400)"
    unfolding daysBefore_def by (simp only: algebra_simps)
  then have d: "daysBefore y - daysBefore (y - 1) = 365 + a - b + c"
    unfolding s .
  have m1: "y mod 400 mod 100 = y mod 100" by (rule mod_mod_cancel) simp
  have m2: "y mod 100 mod 4 = y mod 4" by (rule mod_mod_cancel) simp
  have i1: "y mod 400 = 0 \<Longrightarrow> y mod 100 = 0" using m1 by simp
  have i2: "y mod 100 = 0 \<Longrightarrow> y mod 4 = 0" using m2 by simp
  show ?thesis
  proof (cases "y mod 4 = 0")
    case False
    have n100: "y mod 100 \<noteq> 0"
    proof
      assume "y mod 100 = 0"
      then have "y mod 4 = 0" by (rule i2)
      with False show False ..
    qed
    have "y mod 400 \<noteq> 0"
    proof
      assume "y mod 400 = 0"
      then have "y mod 100 = 0" by (rule i1)
      with n100 show False ..
    qed
    with False n100 show ?thesis unfolding d a_def b_def c_def leapYear_def by simp
  next
    case True
    show ?thesis
    proof (cases "y mod 100 = 0")
      case False
      have "y mod 400 \<noteq> 0"
      proof
        assume "y mod 400 = 0"
        then have "y mod 100 = 0" by (rule i1)
        with False show False ..
      qed
      with True False show ?thesis unfolding d a_def b_def c_def leapYear_def by simp
    next
      case h: True
      show ?thesis
      proof (cases "y mod 400 = 0")
        case True
        with \<open>y mod 4 = 0\<close> h show ?thesis unfolding d a_def b_def c_def leapYear_def by simp
      next
        case False
        with \<open>y mod 4 = 0\<close> h show ?thesis unfolding d a_def b_def c_def leapYear_def by simp
      qed
    qed
  qed
qed

lemma daysFromCivil_form:
  "daysFromCivil y m dd =
     daysBefore (if m \<le> 2 then y - 1 else y)
     + (153 * (if m > 2 then m - 3 else m + 9) + 2) div 5 + dd - 1 - 719468"
  using era_form [of "if m \<le> 2 then y - 1 else y"]
  by (simp add: daysFromCivil_def Let_def)

lemma first_of_month_step:
  assumes "0 \<le> m" "m \<le> 11"
  shows "daysFromCivil (y + (m + 1) div 12) ((m + 1) mod 12 + 1) 1
          - daysFromCivil (y + m div 12) (m mod 12 + 1) 1 = daysInMonth y m"
proof -
  from assms have "m = 0 \<or> m = 1 \<or> m = 2 \<or> m = 3 \<or> m = 4 \<or> m = 5 \<or> m = 6 \<or> m = 7
      \<or> m = 8 \<or> m = 9 \<or> m = 10 \<or> m = 11" by arith
  moreover have "daysBefore y - daysBefore (y - 1) - 337 = daysInMonth y 1"
    using daysBefore_step [of y] by (simp add: daysInMonth_def)
  ultimately show ?thesis
    by (elim disjE) (simp_all add: daysFromCivil_form daysInMonth_def)
qed

lemma makeDate_next_month:
  assumes "0 \<le> m" "m \<le> 11"
  shows "makeDate z y (m + 1) 1 = makeDate z y m 1 + daysInMonth y m * msPerDay"
  using first_of_month_step [OF assms, of y]
  by (simp add: makeDate_def algebra_simps)

text \<open>
  Day 31 at 0:00 is thirty days after the first of the month, whatever the month: the
  last day of a month of 31 days, and a day of the next month when the month is shorter.
\<close>

lemma makeDate_31: "makeDate z y m 31 = makeDate z y m 1 + 30 * msPerDay"
  by (simp add: makeDate_def algebra_simps)

lemma makeDate_31_next_month:
  assumes "0 \<le> m" "m \<le> 11"
  shows "makeDate z y m 31 = makeDate z y (m + 1) (31 - daysInMonth y m)"
proof -
  have "makeDate z y (m + 1) (31 - daysInMonth y m)
          = makeDate z y (m + 1) 1 + (30 - daysInMonth y m) * msPerDay"
    by (simp add: makeDate_def algebra_simps)
  also have "\<dots> = makeDate z y m 1 + 30 * msPerDay"
    unfolding makeDate_next_month [OF assms] by (simp add: algebra_simps)
  finally show ?thesis by (simp add: makeDate_31)
qed

text \<open>
  In a month of 31 days, what is created on the 31st is in the window of no run: the
  window of the month ends where the day begins, and the window of the next month
  begins where it ends.
\<close>

lemma day_31_in_no_window:
  assumes m: "0 \<le> m" "m \<le> 11" and l: "daysInMonth y m = 31"
    and t: "makeDate z y m 31 \<le> t" "t < makeDate z y m 31 + msPerDay"
  shows "makeDate z y m 1 \<le> t \<and> t < makeDate z y (m + 1) 1
         \<and> \<not> t < makeDate z y m 31 \<and> \<not> makeDate z y (m + 1) 1 \<le> t"
proof -
  have n: "makeDate z y (m + 1) 1 = makeDate z y m 31 + msPerDay"
    unfolding makeDate_next_month [OF m] l makeDate_31 by simp
  have "makeDate z y m 1 \<le> makeDate z y m 31"
    by (simp add: makeDate_31 msPerDay_def)
  with t n show ?thesis by simp
qed

text \<open>
  What a run counts. With unique article ids, the row of a user counts the user's root
  comments of the window, and the row without reference all root comments of the window.
\<close>

lemma userComments_counts:
  assumes u: "uniqueIds d" and x: "ud_id x = ObjectId (uid u)"
  shows "userComments d x t1 t2 = rootCommentsIn d u t1 t2"
proof -
  have "(case joinedArticle d c of None \<Rightarrow> False
          | Some a \<Rightarrow> author a = Some (ObjectId (toString (ud_id x))))
        \<longleftrightarrow> list_ex (\<lambda>a. a_id a = articleId c \<and> author a = Some (ObjectId (uid u)))
              (articles d)" for c
  proof (cases "joinedArticle d c")
    case None
    then have "\<not> list_ex (\<lambda>a. a_id a = articleId c) (articles d)"
      using find_key_exists [of a_id "articleId c" "articles d"]
      by (auto simp: joinedArticle_def)
    with None show ?thesis by (auto simp: list_ex_iff)
  next
    case (Some a)
    have a: "(b \<in> set (articles d) \<and> a_id b = articleId c) = (b = a)" for b
      using find_by_key [of a_id "articles d" "articleId c" b] u Some
      by (auto simp: joinedArticle_def uniqueIds_def)
    have "list_ex (\<lambda>a. a_id a = articleId c \<and> author a = Some (ObjectId (uid u))) (articles d)
            \<longleftrightarrow> (\<exists>b. (b \<in> set (articles d) \<and> a_id b = articleId c)
                      \<and> author b = Some (ObjectId (uid u)))"
      by (auto simp: list_ex_iff)
    also have "\<dots> \<longleftrightarrow> author a = Some (ObjectId (uid u))"
      unfolding a by simp
    finally show ?thesis using Some x by (simp add: ObjectId_toString)
  qed
  then show ?thesis
    unfolding userComments_def rootCommentsIn_def rootCommentOf_def
    by (simp add: conj_commute conj_left_commute)
qed

lemma allComments_counts: "allComments d t1 t2 = allRootCommentsIn d t1 t2"
  unfolding allComments_def allRootCommentsIn_def
  by (simp add: conj_commute conj_left_commute)

text \<open>
  One run adds one row for each user whose \<open>deletedAt\<close> is null and one row without
  reference, and removes none; a second run for the same month adds the same rows again.
\<close>

lemma commentsJob_appends:
  "mset (stats (commentsJob z d y m)) =
     mset (stats d)
     + image_mset (userRow z d y m) (filter_mset (\<lambda>u. deletedAt u = None) (mset (users d)))
     + {#globalRow z d y m#}"
  by (simp add: commentsJob_def)

lemma commentsJob_twice:
  "mset (stats (commentsJob z (commentsJob z d y m) y m)) =
     mset (stats d)
     + image_mset (userRow z d y m) (filter_mset (\<lambda>u. deletedAt u = None) (mset (users d)))
     + {#globalRow z d y m#}
     + image_mset (userRow z d y m) (filter_mset (\<lambda>u. deletedAt u = None) (mset (users d)))
     + {#globalRow z d y m#}"
proof -
  have rows: "userRow z (commentsJob z d y m) y m = userRow z d y m"
    "globalRow z (commentsJob z d y m) y m = globalRow z d y m"
    by (simp_all add: userRow_def globalRow_def commentsJob_def userComments_def allComments_def
        joinedArticle_def fun_eq_iff)
  have "mset (stats (commentsJob z (commentsJob z d y m) y m)) =
     mset (stats (commentsJob z d y m))
     + image_mset (userRow z d y m) (filter_mset (\<lambda>u. deletedAt u = None) (mset (users d)))
     + {#globalRow z d y m#}"
    unfolding commentsJob_def [of z "commentsJob z d y m"] rows
    by (simp add: commentsJob_def)
  then show ?thesis unfolding commentsJob_appends .
qed

lemma userRow_fields:
  "st_month (userRow z d y m x) = m + 1 \<and> st_year (userRow z d y m x) = y
   \<and> st_reference (userRow z d y m x) = Some (toString (ud_id x))
   \<and> st_count (userRow z d y m x)
       = userComments d x (makeDate z y m 1) (makeDate z y m 1 + 30 * msPerDay)"
  by (simp add: userRow_def makeDate_31)

lemma globalRow_fields:
  "st_month (globalRow z d y m) = m + 1 \<and> st_year (globalRow z d y m) = y
   \<and> st_reference (globalRow z d y m) = None
   \<and> st_count (globalRow z d y m)
       = allRootCommentsIn d (makeDate z y m 1) (makeDate z y m 1 + 30 * msPerDay)"
  by (simp add: globalRow_def makeDate_31 allComments_counts)

text \<open>
  C9. The window of a run ends with day 31 at 0:00, not included, so that a comment
  created on the 31st is counted by no run. Over \<open>dbJob\<close>, in UTC: \<open>ana\<close> has two root
  comments created in January 2021, of the 15th and of the 31st at noon, and \<open>root\<close> one,
  of the 30th at noon. The run of January writes a count of 1 for \<open>ana\<close>, of 1 for \<open>root\<close>
  and of 2 for all, and the run of February writes three counts of 0: the comment of the
  31st is in neither.
\<close>

theorem commentsJob_misses_day_31:
  "stats (commentsJob 0 dbJob 2021 0) =
     [\<lparr> st_month = 1, st_count = 1, st_year = 2021, st_reference = Some (uid ana) \<rparr>,
      \<lparr> st_month = 1, st_count = 1, st_year = 2021, st_reference = Some (uid root) \<rparr>,
      \<lparr> st_month = 1, st_count = 2, st_year = 2021, st_reference = None \<rparr>]
   \<and> stats (commentsJob 0 dbJob 2021 1) =
     [\<lparr> st_month = 2, st_count = 0, st_year = 2021, st_reference = Some (uid ana) \<rparr>,
      \<lparr> st_month = 2, st_count = 0, st_year = 2021, st_reference = Some (uid root) \<rparr>,
      \<lparr> st_month = 2, st_count = 0, st_year = 2021, st_reference = None \<rparr>]
   \<and> rootCommentsIn dbJob ana (makeDate 0 2021 0 1) (makeDate 0 2021 1 1) = 2
   \<and> rootCommentsIn dbJob root (makeDate 0 2021 0 1) (makeDate 0 2021 1 1) = 1
   \<and> allRootCommentsIn dbJob (makeDate 0 2021 0 1) (makeDate 0 2021 1 1) = 3
   \<and> makeDate 0 2021 0 31 \<le> jan31noon \<and> jan31noon < makeDate 0 2021 1 1"
proof -
  have d: "makeDate 0 2021 0 1 = 1609459200000" "makeDate 0 2021 0 31 = 1612051200000"
    "makeDate 0 2021 1 1 = 1612137600000" "makeDate 0 2021 1 31 = 1614729600000"
    by (simp_all add: makeDate_def daysFromCivil_def msPerDay_def)
  have january: "stats (commentsJob 0 dbJob 2021 0) =
     [\<lparr> st_month = 1, st_count = 1, st_year = 2021, st_reference = Some (uid ana) \<rparr>,
      \<lparr> st_month = 1, st_count = 1, st_year = 2021, st_reference = Some (uid root) \<rparr>,
      \<lparr> st_month = 1, st_count = 2, st_year = 2021, st_reference = None \<rparr>]"
    by (simp add: commentsJob_def userRow_def globalRow_def userComments_def allComments_def
        joinedArticle_def d ex_defs oid_simps)
  have february: "stats (commentsJob 0 dbJob 2021 1) =
     [\<lparr> st_month = 2, st_count = 0, st_year = 2021, st_reference = Some (uid ana) \<rparr>,
      \<lparr> st_month = 2, st_count = 0, st_year = 2021, st_reference = Some (uid root) \<rparr>,
      \<lparr> st_month = 2, st_count = 0, st_year = 2021, st_reference = None \<rparr>]"
    by (simp add: commentsJob_def userRow_def globalRow_def userComments_def allComments_def
        joinedArticle_def d ex_defs oid_simps)
  have counts: "rootCommentsIn dbJob ana (makeDate 0 2021 0 1) (makeDate 0 2021 1 1) = 2"
    "rootCommentsIn dbJob root (makeDate 0 2021 0 1) (makeDate 0 2021 1 1) = 1"
    "allRootCommentsIn dbJob (makeDate 0 2021 0 1) (makeDate 0 2021 1 1) = 3"
    by (simp_all add: rootCommentsIn_def allRootCommentsIn_def rootCommentOf_def d ex_defs
        oid_simps)
  have day: "makeDate 0 2021 0 31 \<le> jan31noon" "jan31noon < makeDate 0 2021 1 1"
    by (simp_all add: d jan31noon_def)
  from january february counts day show ?thesis by (intro conjI)
qed

end
